theory Spec2Isabelle
  imports Main "HOL-Library.AList" "HOL-Library.Sublist"
begin

text \<open>
  A shallow embedding of the computational core of BrassLoom: the scorer, the
  de-duplication and ranking pass of \<^verbatim>\<open>brassloom_harvest.py\<close>, and the
  identifier sequencing, row construction and import loop of
  \<^verbatim>\<open>brassloom_sync_gsu.py\<close>.

  Conventions of the model.
  \<^item> A Python \<^verbatim>\<open>str\<close> is a \<open>string\<close>; every \<open>char\<close> is read as the Unicode code
    point of the same number, so the model covers text whose code points lie below
    U+0100. The tables for lower-casing, white space, digits and word characters are the
    ones Python uses for those code points.
  \<^item> A JSON value held in a record is a \<open>pyval\<close>: null, a string or an integer.
    A record (a Python dict) is an association list; the first binding of a key is the
    one that is read.
  \<^item> An exception that leaves a function is a value \<open>Inl e\<close> of a sum type;
    an exception caught inside the function is the branch its handler takes.
  \<^item> The clock is a parameter: \<^verbatim>\<open>datetime.utcnow()\<close> is a pair of a calendar date and
    the microseconds elapsed since midnight, \<^verbatim>\<open>date.today()\<close> is a calendar date.
  \<^item> Python integers are unbounded; \<^verbatim>\<open>int\<close> applied to a run of decimal digits is total.
\<close>

section \<open>Python values, strings and text matching\<close>

text \<open>
  The values a record field can hold after \<^verbatim>\<open>json.load\<close>, as far as the modelled code
  inspects them: \<^verbatim>\<open>None\<close>, a string, an integer.
\<close>

datatype pyval = PNone | PStr string | PInt int
datatype pyerr = TypeError | AttributeError | OverflowError
type_synonym item = "(string \<times> pyval) list"

text \<open>
  The regular-expression class for decimal digits, and \<^verbatim>\<open>int\<close> on a string of digits.
  Below U+0100 the only decimal digits are 0 to 9.
\<close>

definition is_digit :: "char \<Rightarrow> bool" where
  "is_digit c = (c \<in> set ''0123456789'')"

definition digit_val :: "char \<Rightarrow> nat" where
  "digit_val c = of_char c - 48"

definition digit_char :: "nat \<Rightarrow> char" where
  "digit_char n = ''0123456789'' ! n"

definition py_int :: "string \<Rightarrow> nat" where
  "py_int ds = foldl (\<lambda>a c. 10 * a + digit_val c) 0 ds"

text \<open>
  Decimal rendering of a natural number, and the format specifications
  \<^verbatim>\<open>{n:04d}\<close>, \<^verbatim>\<open>%04d\<close>, \<^verbatim>\<open>%02d\<close>: pad with zeros on the left up to the width, never truncate.
\<close>

fun dec :: "nat \<Rightarrow> string" where
  "dec n = (if n < 10 then [digit_char n] else dec (n div 10) @ [digit_char (n mod 10)])"
declare dec.simps [simp del]

definition zpad :: "nat \<Rightarrow> nat \<Rightarrow> string" where
  "zpad w n = replicate (w - length (dec n)) (CHR ''0'') @ dec n"

text \<open>
  \<^verbatim>\<open>str.lower\<close>: the cased letters below U+0100 are A to Z and U+00C0 to U+00DE without the
  multiplication sign U+00D7; each maps to the code point 32 above it.
\<close>

definition UPPERCASE :: string where
  "UPPERCASE = ''ABCDEFGHIJKLMNOPQRSTUVWXYZ'' @
     [CHR 0xC0, CHR 0xC1, CHR 0xC2, CHR 0xC3, CHR 0xC4, CHR 0xC5, CHR 0xC6, CHR 0xC7, CHR 0xC8, CHR 0xC9, CHR 0xCA, CHR 0xCB, CHR 0xCC, CHR 0xCD, CHR 0xCE, CHR 0xCF, CHR 0xD0, CHR 0xD1, CHR 0xD2, CHR 0xD3, CHR 0xD4, CHR 0xD5, CHR 0xD6, CHR 0xD8, CHR 0xD9, CHR 0xDA, CHR 0xDB, CHR 0xDC, CHR 0xDD, CHR 0xDE]"

definition LOWERCASE :: string where
  "LOWERCASE = ''abcdefghijklmnopqrstuvwxyz'' @
     [CHR 0xE0, CHR 0xE1, CHR 0xE2, CHR 0xE3, CHR 0xE4, CHR 0xE5, CHR 0xE6, CHR 0xE7, CHR 0xE8, CHR 0xE9, CHR 0xEA, CHR 0xEB, CHR 0xEC, CHR 0xED, CHR 0xEE, CHR 0xEF, CHR 0xF0, CHR 0xF1, CHR 0xF2, CHR 0xF3, CHR 0xF4, CHR 0xF5, CHR 0xF6, CHR 0xF8, CHR 0xF9, CHR 0xFA, CHR 0xFB, CHR 0xFC, CHR 0xFD, CHR 0xFE]"

definition py_lower_char :: "char \<Rightarrow> char" where
  "py_lower_char c = (case map_of (zip UPPERCASE LOWERCASE) c of Some l \<Rightarrow> l | None \<Rightarrow> c)"

definition py_lower :: "string \<Rightarrow> string" where
  "py_lower s = map py_lower_char s"

text \<open>
  \<^verbatim>\<open>str.strip()\<close> removes leading and trailing white space: below U+0100 these are
  U+0009 to U+000D, U+001C to U+0020, U+0085 and U+00A0.
\<close>

definition is_space :: "char \<Rightarrow> bool" where
  "is_space c =
     (let n = (of_char c :: nat)
      in (9 \<le> n \<and> n \<le> 13) \<or> (28 \<le> n \<and> n \<le> 32) \<or> n = 133 \<or> n = 160)"

definition py_strip :: "string \<Rightarrow> string" where
  "py_strip s = rev (dropWhile is_space (rev (dropWhile is_space s)))"

text \<open>
  The word characters of the regular-expression engine (alphanumeric or underscore), which
  decide where a word boundary lies.
\<close>

definition is_word_char :: "char \<Rightarrow> bool" where
  "is_word_char c =
     (let n = (of_char c :: nat)
      in (48 \<le> n \<and> n \<le> 57) \<or> (65 \<le> n \<and> n \<le> 90) \<or> n = 95 \<or> (97 \<le> n \<and> n \<le> 122)
         \<or> n \<in> {170, 178, 179, 181, 185, 186, 188, 189, 190}
         \<or> (192 \<le> n \<and> n \<le> 214) \<or> (216 \<le> n \<and> n \<le> 246) \<or> (248 \<le> n \<and> n \<le> 255))"

text \<open>
  The substring test \<^verbatim>\<open>sub in text\<close>.
\<close>

fun contains :: "string \<Rightarrow> string \<Rightarrow> bool" where
  "contains sub [] = (sub = [])"
| "contains sub (c # cs) = (take (length sub) (c # cs) = sub \<or> contains sub cs)"

text \<open>
  The search \<^verbatim>\<open>re.search\<close> with flag \<^verbatim>\<open>re.I\<close> for a word \<open>W\<close> between two word
  boundaries, where \<open>W\<close> starts and ends with a word character: some occurrence of \<open>W\<close>, compared without regard to case, is neither preceded
  nor followed by a word character. \<open>word_scan\<close> walks the text and remembers whether the
  previous character was a word character.
\<close>

definition word_at :: "string \<Rightarrow> string \<Rightarrow> bool" where
  "word_at w s =
     (map py_lower_char (take (length w) s) = map py_lower_char w
      \<and> (case drop (length w) s of [] \<Rightarrow> True | c # _ \<Rightarrow> \<not> is_word_char c))"

fun word_scan :: "string \<Rightarrow> bool \<Rightarrow> string \<Rightarrow> bool" where
  "word_scan w prev_word [] = False"
| "word_scan w prev_word (c # cs) =
     ((\<not> prev_word \<and> word_at w (c # cs)) \<or> word_scan w (is_word_char c) cs)"

definition word_search :: "string \<Rightarrow> string \<Rightarrow> bool" where
  "word_search w text = word_scan w False text"

text \<open>
  Truth value of a Python value, the operator \<^verbatim>\<open>or\<close>, \<^verbatim>\<open>str(v)\<close>, and the two forms of
  \<^verbatim>\<open>dict.get\<close>.
\<close>

definition truthy :: "pyval \<Rightarrow> bool" where
  "truthy v = (case v of PNone \<Rightarrow> False | PStr s \<Rightarrow> s \<noteq> [] | PInt n \<Rightarrow> n \<noteq> 0)"

definition py_or :: "pyval \<Rightarrow> pyval \<Rightarrow> pyval" where
  "py_or a b = (if truthy a then a else b)"

definition py_str :: "pyval \<Rightarrow> string" where
  "py_str v = (case v of PNone \<Rightarrow> ''None'' | PStr s \<Rightarrow> s
               | PInt n \<Rightarrow> (if n < 0 then ''-'' else []) @ dec (nat \<bar>n\<bar>))"

definition get :: "item \<Rightarrow> string \<Rightarrow> pyval" where
  "get it k = (case map_of it k of None \<Rightarrow> PNone | Some v \<Rightarrow> v)"

definition get_default :: "item \<Rightarrow> string \<Rightarrow> pyval \<Rightarrow> pyval" where
  "get_default it k d = (case map_of it k of None \<Rightarrow> d | Some v \<Rightarrow> v)"

text \<open>
  \<^verbatim>\<open>" ".join(parts)\<close>.
\<close>

fun join_sp :: "string list \<Rightarrow> string" where
  "join_sp [] = []"
| "join_sp [s] = s"
| "join_sp (s # t # ss) = s @ '' '' @ join_sp (t # ss)"

section \<open>Calendar dates (the datetime module)\<close>

text \<open>
  A date is (year, month, day). The functions below follow the proleptic Gregorian
  ordinal arithmetic of the standard library (day 1 is 0001-01-01, the last day is
  9999-12-31 with ordinal 3652059).
\<close>

type_synonym date = "nat \<times> nat \<times> nat"

definition is_leap :: "nat \<Rightarrow> bool" where
  "is_leap y = (y mod 4 = 0 \<and> (y mod 100 \<noteq> 0 \<or> y mod 400 = 0))"

definition days_before_year :: "nat \<Rightarrow> int" where
  "days_before_year year = (let y = int year - 1 in y * 365 + y div 4 - y div 100 + y div 400)"

definition DAYS_IN_MONTH :: "nat list" where
  "DAYS_IN_MONTH = [0, 31, 28, 31, 30, 31, 30, 31, 31, 30, 31, 30, 31]"

definition DAYS_BEFORE_MONTH :: "nat list" where
  "DAYS_BEFORE_MONTH = [0, 0, 31, 59, 90, 120, 151, 181, 212, 243, 273, 304, 334]"

definition days_in_month :: "nat \<Rightarrow> nat \<Rightarrow> nat" where
  "days_in_month y m = (if m = 2 \<and> is_leap y then 29 else DAYS_IN_MONTH ! m)"

definition days_before_month :: "nat \<Rightarrow> nat \<Rightarrow> nat" where
  "days_before_month y m = DAYS_BEFORE_MONTH ! m + (if m > 2 \<and> is_leap y then 1 else 0)"

definition valid_date :: "date \<Rightarrow> bool" where
  "valid_date dt = (case dt of (y, m, d) \<Rightarrow>
     1 \<le> y \<and> y \<le> 9999 \<and> 1 \<le> m \<and> m \<le> 12 \<and> 1 \<le> d \<and> d \<le> days_in_month y m)"

definition ymd2ord :: "date \<Rightarrow> int" where
  "ymd2ord dt = (case dt of (y, m, d) \<Rightarrow>
     days_before_year y + int (days_before_month y m) + int d)"

definition MAXORDINAL :: int where
  "MAXORDINAL = 3652059"

text \<open>
  The inverse of \<open>ymd2ord\<close>, by the standard library's algorithm over 400-, 100-, 4- and 1-year
  cycles.
\<close>

definition ord2ymd :: "int \<Rightarrow> date" where
  "ord2ymd ordinal =
     (let n = ordinal - 1;
          n400 = n div 146097; na = n mod 146097;
          n100 = na div 36524; nb = na mod 36524;
          n4 = nb div 1461; nc = nb mod 1461;
          n1 = nc div 365; nd = nc mod 365;
          year = nat (n400 * 400 + 1 + n100 * 100 + n4 * 4 + n1)
      in if n1 = 4 \<or> n100 = 4 then (year - 1, 12, 31)
         else
           (let leapyear = (n1 = 3 \<and> (n4 \<noteq> 24 \<or> n100 = 3));
                r = nat nd;
                month = (r + 50) div 32;
                preceding = DAYS_BEFORE_MONTH ! month + (if month > 2 \<and> leapyear then 1 else 0)
            in if preceding > r
               then (let month' = month - 1;
                         preceding' = preceding
                            - (DAYS_IN_MONTH ! month' + (if month' = 2 \<and> leapyear then 1 else 0))
                     in (year, month', r - preceding' + 1))
               else (year, month, r - preceding + 1)))"

text \<open>
  \<^verbatim>\<open>date.isoformat()\<close>, and \<^verbatim>\<open>date + timedelta(days=n)\<close>, which raises
  \<^verbatim>\<open>OverflowError\<close> when the result leaves the range of dates.
\<close>

definition isoformat :: "date \<Rightarrow> string" where
  "isoformat dt = (case dt of (y, m, d) \<Rightarrow> zpad 4 y @ ''-'' @ zpad 2 m @ ''-'' @ zpad 2 d)"

definition date_add_days :: "date \<Rightarrow> int \<Rightarrow> pyerr + date" where
  "date_add_days dt n =
     (let ordinal = ymd2ord dt + n
      in if 0 < ordinal \<and> ordinal \<le> MAXORDINAL then Inr (ord2ymd ordinal) else Inl OverflowError)"

text \<open>
  \<^verbatim>\<open>datetime.fromisoformat(s)\<close> for a string of at most ten characters, as the harvester
  calls it on \<^verbatim>\<open>date_str[:10]\<close>: the string must have the shape YYYY-MM-DD and denote a valid
  date; \<open>None\<close> stands for \<^verbatim>\<open>ValueError\<close>.
\<close>

definition fromisoformat :: "string \<Rightarrow> date option" where
  "fromisoformat s =
     (if length s = 10 \<and> list_all is_digit (take 4 s) \<and> s ! 4 = CHR ''-''
         \<and> list_all is_digit (take 2 (drop 5 s)) \<and> s ! 7 = CHR ''-''
         \<and> list_all is_digit (drop 8 s)
      then (let dt = (py_int (take 4 s), py_int (take 2 (drop 5 s)), py_int (drop 8 s))
            in if valid_date dt then Some dt else None)
      else None)"

section \<open>Date parsing in the sync step (strptime)\<close>

text \<open>
  \<^verbatim>\<open>strptime\<close> compiles a format into a regular expression and matches it against the
  start of the string. A directive is modelled as a backtracking matcher: the list of
  (value, rest of input) in the order the regular-expression engine tries them. The
  directive for a year is four digits; a month is one of 10 to 12, 01 to 09, 1 to 9; a day
  is one of 30, 31, 10 to 29, 01 to 09, 1 to 9, or a space and 1 to 9.
\<close>

type_synonym 'a rx = "string \<Rightarrow> ('a \<times> string) list"

definition rx_lit :: "char \<Rightarrow> unit rx" where
  "rx_lit c s = (case s of [] \<Rightarrow> [] | x # xs \<Rightarrow> (if x = c then [((), xs)] else []))"

definition rx_alts :: "(string \<times> nat) list \<Rightarrow> nat rx" where
  "rx_alts alts s = [(v, drop (length a) s). (a, v) \<leftarrow> alts, take (length a) s = a]"

definition rx_Y :: "nat rx" where
  "rx_Y s = (if 4 \<le> length s \<and> list_all is_digit (take 4 s)
             then [(py_int (take 4 s), drop 4 s)] else [])"

definition month_alts :: "(string \<times> nat) list" where
  "month_alts = map (\<lambda>n. (dec n, n)) [10, 11, 12]
              @ map (\<lambda>n. (CHR ''0'' # dec n, n)) [1, 2, 3, 4, 5, 6, 7, 8, 9]
              @ map (\<lambda>n. (dec n, n)) [1, 2, 3, 4, 5, 6, 7, 8, 9]"

definition day_alts :: "(string \<times> nat) list" where
  "day_alts = map (\<lambda>n. (dec n, n)) [30, 31]
            @ map (\<lambda>n. (dec n, n))
                [10, 11, 12, 13, 14, 15, 16, 17, 18, 19, 20, 21, 22, 23, 24, 25, 26, 27, 28, 29]
            @ map (\<lambda>n. (CHR ''0'' # dec n, n)) [1, 2, 3, 4, 5, 6, 7, 8, 9]
            @ map (\<lambda>n. (dec n, n)) [1, 2, 3, 4, 5, 6, 7, 8, 9]
            @ map (\<lambda>n. (CHR '' '' # dec n, n)) [1, 2, 3, 4, 5, 6, 7, 8, 9]"

definition rx_m :: "nat rx" where
  "rx_m = rx_alts month_alts"

definition rx_d :: "nat rx" where
  "rx_d = rx_alts day_alts"

text \<open>
  The first complete match decides: text left over after it, or a date that does not exist,
  is a \<^verbatim>\<open>ValueError\<close> (\<open>None\<close>).
\<close>

definition strptime_finish :: "(date \<times> string) list \<Rightarrow> date option" where
  "strptime_finish ms =
     (case ms of [] \<Rightarrow> None
      | (dt, rest) # _ \<Rightarrow> (if rest \<noteq> [] then None else if valid_date dt then Some dt else None))"

definition strptime_Ymd :: "char \<Rightarrow> string \<Rightarrow> date option" where
  "strptime_Ymd sep s = strptime_finish
     [((y, m, d), r5). (y, r1) \<leftarrow> rx_Y s, (u, r2) \<leftarrow> rx_lit sep r1, (m, r3) \<leftarrow> rx_m r2,
                       (v, r4) \<leftarrow> rx_lit sep r3, (d, r5) \<leftarrow> rx_d r4]"

definition strptime_mdY :: "char \<Rightarrow> string \<Rightarrow> date option" where
  "strptime_mdY sep s = strptime_finish
     [((y, m, d), r5). (m, r1) \<leftarrow> rx_m s, (u, r2) \<leftarrow> rx_lit sep r1, (d, r3) \<leftarrow> rx_d r2,
                       (v, r4) \<leftarrow> rx_lit sep r3, (y, r5) \<leftarrow> rx_Y r4]"

text \<open>
  \<^verbatim>\<open>parse_date\<close> (sync, lines 22-31): the first ten characters are tried against the
  formats Y-m-d, m/d/Y and Y/m/d in this order. Slicing an integer raises \<^verbatim>\<open>TypeError\<close>.
\<close>

definition parse_date :: "pyval \<Rightarrow> pyerr + date option" where
  "parse_date v =
     (if \<not> truthy v then Inr None
      else case v of
        PStr s0 \<Rightarrow>
          (let s = take 10 s0
           in Inr (case strptime_Ymd (CHR ''-'') s of Some d \<Rightarrow> Some d
                   | None \<Rightarrow> (case strptime_mdY (CHR ''/'') s of Some d \<Rightarrow> Some d
                   | None \<Rightarrow> strptime_Ymd (CHR ''/'') s)))
      | _ \<Rightarrow> Inl TypeError)"

section \<open>Harvester: time window, scorer, de-duplication and ranking\<close>

text \<open>
  The reading of \<^verbatim>\<open>datetime.utcnow()\<close>: the UTC date and the microseconds since midnight.
  \<open>delta_days a b\<close> is \<^verbatim>\<open>(a - b).days\<close>, the number of whole days of the difference,
  rounded towards minus infinity as \<^verbatim>\<open>timedelta\<close> normalises it.
\<close>

type_synonym clock = "date \<times> nat"

definition DAY_US :: int where
  "DAY_US = 86400000000"

definition instant :: "clock \<Rightarrow> int" where
  "instant c = ymd2ord (fst c) * DAY_US + int (snd c)"

definition delta_days :: "clock \<Rightarrow> clock \<Rightarrow> int" where
  "delta_days a b = (instant a - instant b) div DAY_US"

text \<open>
  \<^verbatim>\<open>within_days\<close> (harvest, lines 26-33).
\<close>

definition within_days :: "clock \<Rightarrow> pyval \<Rightarrow> int \<Rightarrow> pyerr + bool" where
  "within_days now date_str days =
     (if \<not> truthy date_str then Inr True
      else case date_str of
        PStr s \<Rightarrow>
          (case fromisoformat (take 10 s) of
             None \<Rightarrow> Inr True
           | Some dt \<Rightarrow> Inr (delta_days now (dt, 0) \<le> days))
      | _ \<Rightarrow> Inl TypeError)"

fun keep_within :: "clock \<Rightarrow> int \<Rightarrow> item list \<Rightarrow> pyerr + item list" where
  "keep_within now days [] = Inr []"
| "keep_within now days (itm # rest) =
     (case within_days now (get_default itm ''posted_date'' (PStr [])) days of
        Inl e \<Rightarrow> Inl e
      | Inr b \<Rightarrow> (case keep_within now days rest of
                    Inl e \<Rightarrow> Inl e
                  | Inr out \<Rightarrow> Inr (if b then itm # out else out)))"

text \<open>
  \<^verbatim>\<open>score_item\<close> (harvest, lines 35-55), in three parts: the text blob and the keyword loop
  (lines 36-40), the urgency computation (lines 45-54), and the sum with the two whole-word
  bonuses (lines 42-43, 55).
\<close>

definition TEXT_FIELDS :: "string list" where
  "TEXT_FIELDS = [''title'', ''description'', ''eligibility'', ''agency'', ''source'']"

definition item_text :: "item \<Rightarrow> string" where
  "item_text it = py_lower (join_sp (map (\<lambda>k. py_str (get_default it k (PStr []))) TEXT_FIELDS))"

definition keyword_points :: "string \<Rightarrow> string list \<Rightarrow> int" where
  "keyword_points text keywords =
     fold (\<lambda>kw score. if contains (py_lower kw) text then score + 10 else score) keywords 0"

definition urgency_bonus :: "clock \<Rightarrow> item \<Rightarrow> int" where
  "urgency_bonus now it =
     (if truthy (get it ''close_date'')
      then (case get it ''close_date'' of
              PStr s \<Rightarrow>
                (case fromisoformat (take 10 s) of
                   Some cdt \<Rightarrow>
                     (let days_left = delta_days (cdt, 0) now
                      in if 0 \<le> days_left \<and> days_left \<le> 30 then 10
                         else if 31 \<le> days_left \<and> days_left \<le> 60 then 5
                         else 0)
                 | None \<Rightarrow> 0)
            | _ \<Rightarrow> 0)
      else 0)"

definition score_item :: "clock \<Rightarrow> item \<Rightarrow> string list \<Rightarrow> int" where
  "score_item now it keywords =
     (let text = item_text it;
          score = keyword_points text keywords;
          score = (if word_search ''HBCU'' text then score + 20 else score);
          score = (if word_search ''MSI'' text then score + 15 else score)
      in score + urgency_bonus now it)"

text \<open>
  The de-duplication loop of \<^verbatim>\<open>main\<close> (harvest, lines 155-162): the state is the set
  \<^verbatim>\<open>seen\<close> and the list \<^verbatim>\<open>deduped\<close>.
\<close>

definition dedup_key :: "item \<Rightarrow> pyval" where
  "dedup_key i = py_or (get i ''url'') (get i ''id'')"

definition dedup_step :: "item \<Rightarrow> pyval set \<times> item list \<Rightarrow> pyval set \<times> item list" where
  "dedup_step i st =
     (case st of (seen, deduped) \<Rightarrow>
        (let key = dedup_key i
         in if key \<in> seen then (seen, deduped) else (insert key seen, deduped @ [i])))"

definition dedup :: "item list \<Rightarrow> item list" where
  "dedup all_items = snd (fold dedup_step all_items ({}, []))"

text \<open>
  The sort key of line 164. Line 152 stores an integer under this key in every record before
  the sort, so the last case is never reached from \<open>harvest_rank\<close>.
\<close>

definition hbcu_msi_score :: "item \<Rightarrow> int" where
  "hbcu_msi_score x = (case get_default x ''hbcu_msi_score'' (PInt 0) of PInt n \<Rightarrow> n | _ \<Rightarrow> 0)"

definition score_all :: "clock \<Rightarrow> string list \<Rightarrow> item list \<Rightarrow> item list" where
  "score_all now keywords all_items =
     map (\<lambda>itm. AList.update ''hbcu_msi_score'' (PInt (score_item now itm keywords)) itm) all_items"

text \<open>
  Lines 151-164 of \<^verbatim>\<open>main\<close>: score every record, de-duplicate, sort. \<^verbatim>\<open>list.sort\<close> with
  \<^verbatim>\<open>reverse=True\<close> is a stable sort into descending key order, which is the stable sort
  by the negated key.
\<close>

definition harvest_rank :: "clock \<Rightarrow> string list \<Rightarrow> item list \<Rightarrow> item list" where
  "harvest_rank now keywords all_items =
     (let scored = score_all now keywords all_items;
          deduped = dedup scored
      in sort_key (\<lambda>x. - hbcu_msi_score x) deduped)"

section \<open>Sync step: identifiers, classification and row construction\<close>

text \<open>
  Sequencing of computations that may raise.
\<close>

definition ebind :: "pyerr + 'a \<Rightarrow> ('a \<Rightarrow> pyerr + 'b) \<Rightarrow> pyerr + 'b" where
  "ebind m f = (case m of Inl e \<Rightarrow> Inl e | Inr x \<Rightarrow> f x)"

fun sequence_err :: "(pyerr + 'a) list \<Rightarrow> pyerr + 'a list" where
  "sequence_err [] = Inr []"
| "sequence_err (m # ms) = ebind m (\<lambda>x. ebind (sequence_err ms) (\<lambda>xs. Inr (x # xs)))"

text \<open>
  Calling a string method (\<^verbatim>\<open>strip\<close>, \<^verbatim>\<open>lower\<close>) on a value: anything but a string raises
  \<^verbatim>\<open>AttributeError\<close>.
\<close>

definition str_method :: "pyval \<Rightarrow> pyerr + string" where
  "str_method v = (case v of PStr s \<Rightarrow> Inr s | _ \<Rightarrow> Inl AttributeError)"

text \<open>
  The configuration file, with the keys the sync step reads. The four entries of
  \<^verbatim>\<open>default_pi\<close> are read with subscripts and are taken to be present; the others are read
  with \<^verbatim>\<open>get\<close> and a default. The mechanism map keeps the order of the file.
\<close>

record config =
  default_pi_id :: pyval
  default_pi_name :: pyval
  default_pi_dept :: pyval
  default_pi_college :: pyval
  internal_deadline_offset_days :: "int option"
  default_proposal_type :: "pyval option"
  default_status :: "pyval option"
  mechanism_map :: "(string \<times> string) list"

text \<open>
  A generated task: (name, due date, owner, status, notes).
\<close>

type_synonym task = "string \<times> string \<times> string \<times> string \<times> string"

text \<open>
  \<^verbatim>\<open>re.match\<close> of the prefix followed by a group of one or more digits, and
  \<^verbatim>\<open>int(m.group(1))\<close>: the prefix must start
  the string and be followed by at least one digit; the group is the longest run of digits.
\<close>

definition re_match_num :: "string \<Rightarrow> string \<Rightarrow> nat option" where
  "re_match_num p s =
     (if take (length p) s = p
      then (let ds = takeWhile is_digit (drop (length p) s)
            in if ds = [] then None else Some (py_int ds))
      else None)"

definition id_nums :: "string \<Rightarrow> string list \<Rightarrow> nat list" where
  "id_nums p ids = List.map_filter (re_match_num p) ids"

text \<open>
  \<^verbatim>\<open>next_id\<close> (sync, lines 33-41).
\<close>

definition next_id :: "string list \<Rightarrow> string \<Rightarrow> string" where
  "next_id existing_ids p =
     (let nums = id_nums p existing_ids;
          nxt = (case nums of [] \<Rightarrow> 1 | n # ns \<Rightarrow> fold max ns n + 1)
      in p @ zpad 4 nxt)"

text \<open>
  \<^verbatim>\<open>next_task_id\<close> (sync, lines 43-51) returns a closure over the list \<^verbatim>\<open>nums\<close>; the
  model returns that list, and \<open>next_task\<close> is one call of the closure: it appends the last
  element plus one to the list and formats it. The value \<^verbatim>\<open>nxt\<close> of line 50 is computed and
  never used.
\<close>

definition next_task_id :: "string list \<Rightarrow> nat list" where
  "next_task_id existing_ids = id_nums ''TSK-'' existing_ids"

definition next_task :: "nat list \<Rightarrow> string \<times> nat list" where
  "next_task nums =
     (if nums \<noteq> []
      then (let nums' = nums @ [last nums + 1] in (''TSK-'' @ zpad 4 (last nums'), nums'))
      else (''TSK-'' @ zpad 4 1, [1]))"

text \<open>
  \<^verbatim>\<open>sponsor_type_from_agency\<close> (sync, lines 53-60).
\<close>

definition FEDERAL_KEYWORDS :: "string list" where
  "FEDERAL_KEYWORDS = [''national science foundation'', ''nih'', ''health'', ''grants.gov'',
     ''nasa'', ''nsf'', ''department of'', ''dod'', ''doe'', ''usda'', ''epa'', ''nsf funding'',
     ''nih guide'']"

definition sponsor_type_from_agency :: "string \<Rightarrow> string" where
  "sponsor_type_from_agency agency =
     (if agency = [] then []
      else (let agency_low = py_lower agency
            in if list_ex (\<lambda>k. contains k agency_low) FEDERAL_KEYWORDS then ''Federal''
               else if contains ''board of regents'' agency_low \<or> contains ''state'' agency_low
                    then ''State''
               else ''Nonprofit''))"

text \<open>
  \<^verbatim>\<open>mechanism_from_source\<close> (sync, lines 62-69).
\<close>

definition mechanism_from_source :: "item \<Rightarrow> config \<Rightarrow> pyerr + string" where
  "mechanism_from_source it cfg =
     ebind (str_method (py_or (get it ''source'') (py_or (get it ''agency'') (PStr [])))) (\<lambda>s0.
       (let src = py_strip s0
        in case find (\<lambda>kv. contains (py_lower (fst kv)) (py_lower src)) (mechanism_map cfg) of
             Some kv \<Rightarrow> Inr (snd kv)
           | None \<Rightarrow>
               ebind (str_method (get_default it ''url'' (PStr []))) (\<lambda>u.
                 Inr (if contains ''grants.gov'' (py_lower u) then ''Grants.gov'' else ''Other''))))"

text \<open>
  The seven tasks of \<^verbatim>\<open>prepare_rows\<close> (sync, lines 109-117) as a table of
  (name, days before the anchor, owner, status, notes); \<open>task_due\<close> is the local function
  \<^verbatim>\<open>t\<close> of line 107.
\<close>

definition TASK_TABLE :: "string \<Rightarrow> (string \<times> int \<times> string \<times> string \<times> string) list" where
  "TASK_TABLE mechanism =
     [(''Complete GSU Internal Routing Form'', 10, ''PI'', ''Pending'', ''Attach signed PDF''),
      (''COI Disclosures for all key personnel'', 9, ''PI/OSP'', ''Pending'', []),
      (''Subrecipient Commitment Form(s)'', 8, ''OSP'', ''Pending'', ''Collect UEI and F&A rate docs''),
      (''Export Control & Data Security review'', 8, ''Compliance'', ''Pending'',
         ''If foreign collaborators or controlled data''),
      (''Final Budget & Justification'', 7, ''OSP Pre-Award'', ''Pending'',
         ''Check salary cap and F&A base''),
      (''Create application in '' @ mechanism, 7, ''OSP Pre-Award'', ''Pending'',
         ''Confirm FOA & forms''),
      (''Dean/Provost cost-share letter (if required)'', 7, ''Dean/Provost'', ''Pending'',
         ''Upload letter'')]"

definition task_due :: "date \<Rightarrow> int \<Rightarrow> pyerr + string" where
  "task_due due_for_tasks n = ebind (date_add_days due_for_tasks (- n)) (\<lambda>d. Inr (isoformat d))"

definition build_tasks :: "date \<Rightarrow> string \<Rightarrow> pyerr + task list" where
  "build_tasks due_for_tasks mechanism =
     sequence_err (map (\<lambda>(name, n, owner, status, notes).
                          ebind (task_due due_for_tasks n) (\<lambda>due. Inr (name, due, owner, status, notes)))
                       (TASK_TABLE mechanism))"

definition opt_iso :: "date option \<Rightarrow> string" where
  "opt_iso d = (case d of Some x \<Rightarrow> isoformat x | None \<Rightarrow> [])"

text \<open>
  \<^verbatim>\<open>prepare_rows\<close> (sync, lines 71-118). The steps follow the order of evaluation of the
  source, so the first exception raised there is the one returned here.
\<close>

definition prepare_rows :: "date \<Rightarrow> item \<Rightarrow> config \<Rightarrow> string \<Rightarrow> pyerr + (pyval list \<times> task list)" where
  "prepare_rows today it cfg next_pid =
     ebind (str_method (get_default it ''title'' (PStr []))) (\<lambda>t0.
     ebind (str_method (py_or (get it ''agency'') (py_or (get it ''source'') (PStr [])))) (\<lambda>s0.
     ebind (parse_date (get_default it ''close_date'' (PStr []))) (\<lambda>close_date.
     ebind (parse_date (get_default it ''posted_date'' (PStr []))) (\<lambda>posted.
       (let title = py_strip t0;
            sponsor = py_strip s0;
            sponsor_type = sponsor_type_from_agency sponsor;
            due = (case close_date of Some d \<Rightarrow> Some d | None \<Rightarrow> posted);
            offset = (case internal_deadline_offset_days cfg of Some n \<Rightarrow> n | None \<Rightarrow> 7)
        in
     ebind (case due of None \<Rightarrow> Inr None
            | Some d \<Rightarrow> ebind (date_add_days d (- offset)) (\<lambda>x. Inr (Some x))) (\<lambda>internal.
     ebind (mechanism_from_source it cfg) (\<lambda>mechanism.
       (let props_row =
          [PStr next_pid, PStr title,
           default_pi_id cfg, default_pi_name cfg, default_pi_dept cfg, default_pi_college cfg,
           PStr [], PStr sponsor, PStr sponsor_type,
           py_or (get it ''id'') (py_or (get it ''assistance_listing'') (PStr [])),
           PStr (opt_iso internal), PStr (opt_iso due),
           PStr mechanism,
           (case default_proposal_type cfg of Some v \<Rightarrow> v | None \<Rightarrow> PStr ''New''),
           (case default_status cfg of Some v \<Rightarrow> v | None \<Rightarrow> PStr ''Department Review''),
           PStr [], PStr [], PStr [],
           PStr [], PStr [], PStr [],
           PStr ''No'', PStr [], PStr [],
           PStr ''No'', PStr ''No'', PStr ''No'', PStr ''Yes'', PStr ''No'', PStr ''No'',
           PInt 0,
           PStr (''Imported by BrassLoom on '' @ isoformat today)]
        in
     ebind (case due of Some d \<Rightarrow> Inr d | None \<Rightarrow> date_add_days today 30) (\<lambda>due_for_tasks.
     ebind (build_tasks due_for_tasks mechanism) (\<lambda>tasks.
       Inr (props_row, tasks)))))))))))"

section \<open>Sync step: the import loop\<close>

text \<open>
  The state of the loop of \<^verbatim>\<open>main\<close> (sync, lines 165-182): the rows appended to the two
  sheets, the titles and identifiers seen, the next proposal identifier, the list held by
  the task-identifier closure, and the counter of imported records.
\<close>

record sync_state =
  wsP :: "pyval list list"
  wsT :: "pyval list list"
  existing_titles :: "string set"
  existing_ids :: "string list"
  next_pid :: string
  task_nums :: "nat list"
  added :: nat

text \<open>
  Lines 140-150: the state before the loop, from the identifiers and titles found in the
  workbook.
\<close>

definition sync_init :: "string list \<Rightarrow> string set \<Rightarrow> string list \<Rightarrow> sync_state" where
  "sync_init ids titles task_ids =
     \<lparr>wsP = [], wsT = [], existing_titles = titles, existing_ids = ids,
      next_pid = next_id ids ''GSU-P-'', task_nums = next_task_id task_ids, added = 0\<rparr>"

text \<open>
  Lines 171-182: the effect of importing one record.
\<close>

definition append_task :: "pyval \<Rightarrow> task \<Rightarrow> pyval list list \<times> nat list \<Rightarrow> pyval list list \<times> nat list" where
  "append_task pid tk st =
     (case st of (rows, nums) \<Rightarrow>
        (case tk of (name, due, owner, status, notes) \<Rightarrow>
           (case next_task nums of (tid, nums') \<Rightarrow>
              (rows @ [[PStr tid, pid, PStr name, PStr due, PStr owner, PStr status, PStr notes]],
               nums'))))"

definition append_rows :: "sync_state \<Rightarrow> string \<Rightarrow> pyval list \<Rightarrow> task list \<Rightarrow> sync_state" where
  "append_rows st title prop_row tasks =
     (let (rows, nums) = fold (append_task (prop_row ! 0)) tasks (wsT st, task_nums st);
          nxt = (case re_match_num ''GSU-P-'' (next_pid st) of Some n \<Rightarrow> n + 1 | None \<Rightarrow> 1)
      in st\<lparr>wsP := wsP st @ [prop_row],
            wsT := rows,
            existing_titles := insert title (existing_titles st),
            existing_ids := existing_ids st @ [next_pid st],
            next_pid := ''GSU-P-'' @ zpad 4 nxt,
            task_nums := nums,
            added := added st + 1\<rparr>)"

text \<open>
  One iteration of the loop (lines 166-182), and the loop itself. An exception ends the run.
\<close>

definition sync_item :: "config \<Rightarrow> date \<Rightarrow> item \<Rightarrow> sync_state \<Rightarrow> pyerr + sync_state" where
  "sync_item cfg today it st =
     ebind (str_method (py_or (get it ''title'') (PStr []))) (\<lambda>t0.
       (let title = py_lower (py_strip t0)
        in if title = [] \<or> title \<in> existing_titles st then Inr st
           else ebind (prepare_rows today it cfg (next_pid st)) (\<lambda>rows.
                  Inr (append_rows st title (fst rows) (snd rows)))))"

fun sync_loop :: "config \<Rightarrow> date \<Rightarrow> item list \<Rightarrow> sync_state \<Rightarrow> pyerr + sync_state" where
  "sync_loop cfg today [] st = Inr st"
| "sync_loop cfg today (it # chosen) st = ebind (sync_item cfg today it st) (sync_loop cfg today chosen)"

section \<open>Auxiliary notions used in the statements, and example data\<close>

text \<open>
  The task that an entry of the table yields for a given anchor date.
\<close>

definition task_of :: "date \<Rightarrow> string \<times> int \<times> string \<times> string \<times> string \<Rightarrow> task" where
  "task_of anchor e = (case e of (name, n, owner, status, notes) \<Rightarrow>
     (name, isoformat (ord2ymd (ymd2ord anchor - n)), owner, status, notes))"

text \<open>
  What the words of the specification mean for an identifier, stated without the matcher of
  the code. An identifier with prefix \<open>p\<close> carries the number \<open>n\<close> when it is the prefix, then the
  decimal digits of \<open>n\<close>, possibly preceded by zeros, and then either nothing or text that
  does not begin with a digit (so GSU-P-0007 carries 7, and GSU-P-2024-001 carries 2024).
  An identifier is shaped like one when the prefix is followed by at least one digit; all
  other strings (other prefixes, other letter case, no digit) carry no number.
\<close>

definition DECIMAL_DIGITS :: "char set" where
  "DECIMAL_DIGITS = set ''0123456789''"

definition spec_id_number :: "string \<Rightarrow> string \<Rightarrow> nat \<Rightarrow> bool" where
  "spec_id_number p s n =
     (\<exists>k rest. s = p @ replicate k (CHR ''0'') @ dec n @ rest
                \<and> (rest = [] \<or> hd rest \<notin> DECIMAL_DIGITS))"

definition spec_id_shaped :: "string \<Rightarrow> string \<Rightarrow> bool" where
  "spec_id_shaped p s = (\<exists>d rest. s = p @ d # rest \<and> d \<in> DECIMAL_DIGITS)"

fun dedup_from :: "pyval set \<Rightarrow> item list \<Rightarrow> item list" where
  "dedup_from seen [] = []"
| "dedup_from seen (i # rest) =
     (if dedup_key i \<in> seen then dedup_from seen rest
      else i # dedup_from (insert (dedup_key i) seen) rest)"

fun remove_scan :: "string \<Rightarrow> nat \<Rightarrow> string \<Rightarrow> string" where
  "remove_scan sub k [] = []"
| "remove_scan sub (Suc k) (c # cs) = remove_scan sub k cs"
| "remove_scan sub 0 (c # cs) =
     (if sub \<noteq> [] \<and> take (length sub) (c # cs) = sub
      then remove_scan sub (length sub - 1) cs
      else c # remove_scan sub 0 cs)"

definition spec_remove_all :: "string \<Rightarrow> string \<Rightarrow> string" where
  "spec_remove_all sub s = remove_scan sub 0 s"

text \<open>
  A configuration and three records used to instantiate the theorems.
\<close>

definition cfg0 :: config where
  "cfg0 = \<lparr>default_pi_id = PStr ''PI-1'', default_pi_name = PStr ''Dr. A'', default_pi_dept = PStr ''Bio'',
           default_pi_college = PStr ''CAS'', internal_deadline_offset_days = None,
           default_proposal_type = None, default_status = None,
           mechanism_map = [(''NIH'', ''ASSIST''), (''NSF'', ''Research.gov'')]\<rparr>"

definition ex_item :: item where
  "ex_item = [(''title'', PStr ''Test HBCU Grant''), (''source'', PStr ''NIH Guide''),
              (''close_date'', PStr ''2025-06-30'')]"

definition ex_blank :: item where
  "ex_blank = [(''title'', PStr ''   ''), (''source'', PStr ''NSF Funding'')]"

definition ex_item2 :: item where
  "ex_item2 = [(''title'', PStr ''Second grant''), (''agency'', PStr ''Ford Foundation'')]"

definition ex_feed_a :: item where
  "ex_feed_a = [(''id'', PStr ''https://example.org/foa-1''), (''title'', PStr ''Notice one''),
                (''url'', PStr []), (''hbcu_msi_score'', PInt 0)]"

definition ex_feed_b :: item where
  "ex_feed_b = [(''id'', PStr ''NOT-25-001''), (''title'', PStr ''Notice one, reissued''),
                (''url'', PStr ''https://example.org/foa-1''), (''hbcu_msi_score'', PInt 0)]"

definition ex_rest :: item where
  "ex_rest = [(''source'', PStr ''Grants.gov''), (''url'', PStr ''https://example.org/foa-2'')]"

definition ex_rss :: item where
  "ex_rss = [(''source'', PStr ''NIH Guide''), (''url'', PStr ''https://example.org/foa-2'')]"

definition ex_hbcu :: item where
  "ex_hbcu = [(''title'', PStr ''HBCU'')]"

definition ex_hbcus :: item where
  "ex_hbcus = [(''title'', PStr ''HBCUs'')]"

definition ex_hbcu_msi :: item where
  "ex_hbcu_msi = [(''title'', PStr ''HBCU MHBCUSI'')]"

definition ex_hbcu_removed :: item where
  "ex_hbcu_removed = [(''title'', PStr (spec_remove_all ''HBCU'' ''HBCU MHBCUSI''))]"

definition ex_plain :: item where
  "ex_plain = [(''title'', PStr ''MSI'')]"

definition ex_now :: clock where
  "ex_now = ((2025, 3, 14), 43200000000)"

section \<open>Decimal formatting and identifier sequencing\<close>

lemma digit_val_char: "n < 10 \<Longrightarrow> digit_val (digit_char n) = n"
proof -
  assume "n < 10"
  then have "n \<in> {0,1,2,3,4,5,6,7,8,9}" by auto
  then show ?thesis by (auto simp: digit_val_def digit_char_def)
qed

lemma is_digit_char: "n < 10 \<Longrightarrow> is_digit (digit_char n)"
proof -
  assume "n < 10"
  then have "n \<in> {0,1,2,3,4,5,6,7,8,9}" by auto
  then show ?thesis by (auto simp: is_digit_def digit_char_def)
qed

lemma py_int_snoc: "py_int (ds @ [c]) = 10 * py_int ds + digit_val c"
  by (simp add: py_int_def)

lemma py_int_dec: "py_int (dec n) = n"
proof (induction n rule: dec.induct)
  case (1 n)
  show ?case
  proof (cases "n < 10")
    case True
    then show ?thesis by (simp add: dec.simps[of n] py_int_def digit_val_char)
  next
    case False
    then have "py_int (dec n) = 10 * py_int (dec (n div 10)) + digit_val (digit_char (n mod 10))"
      by (simp add: dec.simps[of n] py_int_snoc)
    with False 1 show ?thesis by (simp add: digit_val_char)
  qed
qed

lemma dec_digits: "\<forall>c \<in> set (dec n). is_digit c"
proof (induction n rule: dec.induct)
  case (1 n)
  show ?case
  proof (cases "n < 10")
    case True
    then show ?thesis by (simp add: dec.simps[of n] is_digit_char)
  next
    case False
    with 1 show ?thesis by (simp add: dec.simps[of n] is_digit_char)
  qed
qed

lemma dec_nonempty: "dec n \<noteq> []"
  by (subst dec.simps) simp

lemma py_int_zeros: "py_int (replicate k (CHR ''0'') @ ds) = py_int ds"
proof -
  have "foldl (\<lambda>a c. 10 * a + digit_val c) 0 (replicate k (CHR ''0'')) = 0"
    by (induction k) (simp_all add: digit_val_def replicate_app_Cons_same)
  then show ?thesis by (simp add: py_int_def)
qed

lemma zpad_digits: "\<forall>c \<in> set (zpad w n). is_digit c"
proof -
  have "is_digit (CHR ''0'')" by (simp add: is_digit_def)
  then show ?thesis using dec_digits[of n] by (auto simp: zpad_def)
qed

lemma zpad_nonempty: "zpad w n \<noteq> []"
  by (simp add: zpad_def dec_nonempty)

lemma py_int_zpad: "py_int (zpad w n) = n"
  by (simp add: zpad_def py_int_zeros py_int_dec)

lemma re_match_num_zpad: "re_match_num p (p @ zpad w n) = Some n"
proof -
  have tw: "takeWhile is_digit (zpad w n) = zpad w n"
    using zpad_digits[of w n] by simp
  show ?thesis
    unfolding re_match_num_def Let_def by (simp add: tw zpad_nonempty py_int_zpad)
qed

lemma fold_max_Max: "fold max ns (n::nat) = Max (set (n # ns))"
proof (induction ns arbitrary: n)
  case Nil
  show ?case by simp
next
  case (Cons a ns)
  have "fold max (a # ns) n = fold max ns (max a n)" by simp
  also have "\<dots> = Max (set (max a n # ns))" by (rule Cons.IH)
  also have "\<dots> = Max (set (n # a # ns))"
    by (cases "ns = []") (simp_all add: max.commute max.left_commute max.assoc)
  finally show ?case .
qed

lemma next_id_max:
  "next_id ids p = p @ zpad 4 (if id_nums p ids = [] then 1 else Max (set (id_nums p ids)) + 1)"
  by (cases "id_nums p ids") (simp_all add: next_id_def Let_def fold_max_Max del: set_simps Max_insert)

lemma ebind_Inr: "ebind m f = Inr y \<Longrightarrow> \<exists>x. m = Inr x \<and> f x = Inr y"
  by (cases m) (simp_all add: ebind_def)

lemma prepare_rows_pid:
  assumes "prepare_rows today it cfg pid = Inr (row, tasks)"
  shows "row ! 0 = PStr pid"
  using assms unfolding prepare_rows_def Let_def
  by (auto dest!: ebind_Inr)

lemma py_strip_blank: "list_all is_space s \<Longrightarrow> py_strip s = []"
proof -
  assume "list_all is_space s"
  then have dw: "dropWhile is_space s = []" by (induction s) simp_all
  show ?thesis unfolding py_strip_def dw by simp
qed

lemma append_rows_fields:
  "wsP (append_rows st title row tasks) = wsP st @ [row]"
  "next_pid (append_rows st title row tasks) =
     ''GSU-P-'' @ zpad 4 (case re_match_num ''GSU-P-'' (next_pid st) of Some n \<Rightarrow> n + 1 | None \<Rightarrow> 1)"
  "added (append_rows st title row tasks) = added st + 1"
  by (simp_all add: append_rows_def Let_def split: prod.splits)

lemma sync_item_cases:
  assumes "sync_item cfg today it st = Inr st'"
  shows "st' = st \<or>
         (\<exists>row tasks. prepare_rows today it cfg (next_pid st) = Inr (row, tasks)
            \<and> wsP st' = wsP st @ [row]
            \<and> next_pid st' = ''GSU-P-'' @ zpad 4 (case re_match_num ''GSU-P-'' (next_pid st) of
                                                   Some n \<Rightarrow> n + 1 | None \<Rightarrow> 1)
            \<and> added st' = added st + 1)"
proof -
  from ebind_Inr[OF assms[unfolded sync_item_def]] obtain t0 where
    body: "(let title = py_lower (py_strip t0)
            in if title = [] \<or> title \<in> existing_titles st then Inr st
               else ebind (prepare_rows today it cfg (next_pid st)) (\<lambda>rows.
                      Inr (append_rows st title (fst rows) (snd rows)))) = Inr st'"
    by blast
  show ?thesis
  proof (cases "py_lower (py_strip t0) = [] \<or> py_lower (py_strip t0) \<in> existing_titles st")
    case True
    with body have "st' = st" by (simp add: Let_def)
    then show ?thesis by simp
  next
    case False
    with body have "ebind (prepare_rows today it cfg (next_pid st)) (\<lambda>rows.
                      Inr (append_rows st (py_lower (py_strip t0)) (fst rows) (snd rows))) = Inr st'"
      by (simp add: Let_def)
    from ebind_Inr[OF this] obtain pr where pr: "prepare_rows today it cfg (next_pid st) = Inr pr"
      and st': "st' = append_rows st (py_lower (py_strip t0)) (fst pr) (snd pr)"
      by auto
    obtain row tasks where prt: "pr = (row, tasks)" by (cases pr)
    from st' prt have "wsP st' = wsP st @ [row]
        \<and> next_pid st' = ''GSU-P-'' @ zpad 4 (case re_match_num ''GSU-P-'' (next_pid st) of
                                                   Some n \<Rightarrow> n + 1 | None \<Rightarrow> 1)
        \<and> added st' = added st + 1"
      by (simp add: append_rows_fields)
    with pr prt show ?thesis by blast
  qed
qed

lemma sync_item_ids:
  assumes step: "sync_item cfg today it st = Inr st'"
    and pid: "next_pid st = ''GSU-P-'' @ zpad 4 (n0 + added st)"
    and rows: "map (\<lambda>r. r ! 0) (wsP st) = map (\<lambda>k. PStr (''GSU-P-'' @ zpad 4 (n0 + k))) [0..<added st]"
  shows "next_pid st' = ''GSU-P-'' @ zpad 4 (n0 + added st')
       \<and> map (\<lambda>r. r ! 0) (wsP st') = map (\<lambda>k. PStr (''GSU-P-'' @ zpad 4 (n0 + k))) [0..<added st']"
proof -
  from sync_item_cases[OF step] show ?thesis
  proof
    assume "st' = st"
    with pid rows show ?thesis by simp
  next
    assume "\<exists>row tasks. prepare_rows today it cfg (next_pid st) = Inr (row, tasks)
            \<and> wsP st' = wsP st @ [row]
            \<and> next_pid st' = ''GSU-P-'' @ zpad 4 (case re_match_num ''GSU-P-'' (next_pid st) of
                                                   Some n \<Rightarrow> n + 1 | None \<Rightarrow> 1)
            \<and> added st' = added st + 1"
    then obtain row tasks where pr: "prepare_rows today it cfg (next_pid st) = Inr (row, tasks)"
      and w: "wsP st' = wsP st @ [row]"
      and np: "next_pid st' = ''GSU-P-'' @ zpad 4 (case re_match_num ''GSU-P-'' (next_pid st) of
                                                   Some n \<Rightarrow> n + 1 | None \<Rightarrow> 1)"
      and ad: "added st' = added st + 1" by blast
    have m: "re_match_num ''GSU-P-'' (next_pid st) = Some (n0 + added st)"
      unfolding pid by (rule re_match_num_zpad)
    have r0: "row ! 0 = PStr (''GSU-P-'' @ zpad 4 (n0 + added st))"
      using prepare_rows_pid[OF pr] pid by simp
    from np m ad have "next_pid st' = ''GSU-P-'' @ zpad 4 (n0 + added st')" by simp
    moreover from w rows r0 ad
    have "map (\<lambda>r. r ! 0) (wsP st') = map (\<lambda>k. PStr (''GSU-P-'' @ zpad 4 (n0 + k))) [0..<added st']"
      by simp
    ultimately show ?thesis by simp
  qed
qed

lemma sync_loop_ids:
  "sync_loop cfg today chosen st = Inr st' \<Longrightarrow>
   next_pid st = ''GSU-P-'' @ zpad 4 (n0 + added st) \<Longrightarrow>
   map (\<lambda>r. r ! 0) (wsP st) = map (\<lambda>k. PStr (''GSU-P-'' @ zpad 4 (n0 + k))) [0..<added st] \<Longrightarrow>
   next_pid st' = ''GSU-P-'' @ zpad 4 (n0 + added st')
   \<and> map (\<lambda>r. r ! 0) (wsP st') = map (\<lambda>k. PStr (''GSU-P-'' @ zpad 4 (n0 + k))) [0..<added st']"
proof (induction chosen arbitrary: st)
  case Nil
  then show ?case by simp
next
  case (Cons it chosen)
  from Cons.prems(1) obtain st1 where s1: "sync_item cfg today it st = Inr st1"
    and s2: "sync_loop cfg today chosen st1 = Inr st'"
    by (auto dest!: ebind_Inr)
  from sync_item_ids[OF s1 Cons.prems(2) Cons.prems(3)]
  have "next_pid st1 = ''GSU-P-'' @ zpad 4 (n0 + added st1)"
    and "map (\<lambda>r. r ! 0) (wsP st1) = map (\<lambda>k. PStr (''GSU-P-'' @ zpad 4 (n0 + k))) [0..<added st1]"
    by simp_all
  with Cons.IH[OF s2] show ?case by simp
qed

lemma is_digit_iff: "is_digit c = (c \<in> DECIMAL_DIGITS)"
  by (simp add: is_digit_def DECIMAL_DIGITS_def)

lemma digit_char_val: "is_digit c \<Longrightarrow> digit_char (digit_val c) = c"
  by (auto simp: is_digit_def digit_char_def digit_val_def)

lemma digit_val_lt: "is_digit c \<Longrightarrow> digit_val c < 10"
  by (auto simp: is_digit_def digit_val_def)

lemma dec_small: "n < 10 \<Longrightarrow> dec n = [digit_char n]"
  by (simp add: dec.simps[of n])

lemma dec_step: "0 < m \<Longrightarrow> v < 10 \<Longrightarrow> dec (10 * m + v) = dec m @ [digit_char v]"
  by (simp add: dec.simps[of "10 * m + v"])

lemma digits_canonical:
  "ds \<noteq> [] \<Longrightarrow> \<forall>c \<in> set ds. is_digit c \<Longrightarrow> \<exists>k. ds = replicate k (CHR ''0'') @ dec (py_int ds)"
proof (induction ds rule: rev_nonempty_induct)
  case (single c)
  then have c: "is_digit c" by simp
  have "py_int [c] = digit_val c" by (simp add: py_int_def)
  with c have "dec (py_int [c]) = [c]" by (simp add: dec_small digit_val_lt digit_char_val)
  then have "[c] = replicate 0 (CHR ''0'') @ dec (py_int [c])" by simp
  then show ?case by blast
next
  case (snoc c xs)
  from snoc.prems have c: "is_digit c" and xs: "\<forall>c \<in> set xs. is_digit c" by simp_all
  from snoc.IH[OF xs] obtain k where k: "xs = replicate k (CHR ''0'') @ dec (py_int xs)" ..
  have v: "py_int (xs @ [c]) = 10 * py_int xs + digit_val c" by (rule py_int_snoc)
  show ?case
  proof (cases "py_int xs = 0")
    case True
    have z: "dec 0 = [CHR ''0'']" by (simp add: dec_small digit_char_def)
    from k True z have "xs = replicate (Suc k) (CHR ''0'')"
      by (simp add: replicate_append_same)
    moreover from v True c have "dec (py_int (xs @ [c])) = [c]"
      by (simp add: dec_small digit_val_lt digit_char_val)
    ultimately have "xs @ [c] = replicate (Suc k) (CHR ''0'') @ dec (py_int (xs @ [c]))" by simp
    then show ?thesis by blast
  next
    case False
    then have "dec (py_int (xs @ [c])) = dec (py_int xs) @ [c]"
      using c by (simp add: v dec_step digit_val_lt digit_char_val)
    with k have "xs @ [c] = replicate k (CHR ''0'') @ dec (py_int (xs @ [c]))" by simp
    then show ?thesis by blast
  qed
qed

lemma zpad_py_int:
  assumes "ds \<noteq> []" "\<forall>c \<in> set ds. is_digit c" "length ds = w"
  shows "zpad w (py_int ds) = ds"
proof -
  from digits_canonical[OF assms(1,2)] obtain k where
    k: "ds = replicate k (CHR ''0'') @ dec (py_int ds)" ..
  then have "length ds = k + length (dec (py_int ds))" by (metis length_append length_replicate)
  with assms(3) have "w - length (dec (py_int ds)) = k" by simp
  with k show ?thesis by (simp add: zpad_def)
qed

lemma re_match_num_spec: "(re_match_num p s = Some n) = spec_id_number p s n"
proof
  assume m: "re_match_num p s = Some n"
  let ?r = "drop (length p) s"
  let ?ds = "takeWhile is_digit ?r"
  from m have p: "take (length p) s = p" and ne: "?ds \<noteq> []" and n: "n = py_int ?ds"
    by (auto simp: re_match_num_def Let_def split: if_splits)
  have dg: "\<forall>c \<in> set ?ds. is_digit c" by (auto dest: set_takeWhileD)
  from digits_canonical[OF ne dg] n obtain k where k: "?ds = replicate k (CHR ''0'') @ dec n" by blast
  have "s = take (length p) s @ ?r" by simp
  also have "?r = ?ds @ dropWhile is_digit ?r" by simp
  finally have s: "s = p @ replicate k (CHR ''0'') @ dec n @ dropWhile is_digit ?r"
    using p k by simp
  have "dropWhile is_digit ?r = [] \<or> hd (dropWhile is_digit ?r) \<notin> DECIMAL_DIGITS"
    using hd_dropWhile[of is_digit ?r] by (auto simp: is_digit_iff)
  with s show "spec_id_number p s n" unfolding spec_id_number_def by blast
next
  assume "spec_id_number p s n"
  then obtain k rest where s: "s = p @ replicate k (CHR ''0'') @ dec n @ rest"
    and r: "rest = [] \<or> hd rest \<notin> DECIMAL_DIGITS" unfolding spec_id_number_def by blast
  have z: "is_digit (CHR ''0'')" by (simp add: is_digit_def)
  have dg: "\<forall>c \<in> set (replicate k (CHR ''0'') @ dec n). is_digit c"
    using z dec_digits[of n] by auto
  have tr: "takeWhile is_digit rest = []"
    using r by (cases rest) (auto simp: is_digit_iff)
  have "takeWhile is_digit ((replicate k (CHR ''0'') @ dec n) @ rest)
          = (replicate k (CHR ''0'') @ dec n) @ takeWhile is_digit rest"
    using dg by (intro takeWhile_append2) auto
  with tr have tw: "takeWhile is_digit (replicate k (CHR ''0'') @ dec n @ rest)
          = replicate k (CHR ''0'') @ dec n" by simp
  show "re_match_num p s = Some n"
    unfolding re_match_num_def Let_def s
    by (simp add: tw dec_nonempty py_int_zeros py_int_dec)
qed

lemma re_match_num_unshaped: "\<not> spec_id_shaped p s \<Longrightarrow> re_match_num p s = None"
proof (rule ccontr)
  assume ns: "\<not> spec_id_shaped p s" and "re_match_num p s \<noteq> None"
  then obtain n where "re_match_num p s = Some n" by auto
  then have "spec_id_number p s n" by (simp add: re_match_num_spec)
  then obtain k rest where s: "s = p @ replicate k (CHR ''0'') @ dec n @ rest"
    unfolding spec_id_number_def by blast
  have z: "is_digit (CHR ''0'')" by (simp add: is_digit_def)
  have "replicate k (CHR ''0'') @ dec n \<noteq> []" by (simp add: dec_nonempty)
  then obtain d ds where d: "replicate k (CHR ''0'') @ dec n = d # ds" by (cases "replicate k (CHR ''0'') @ dec n") auto
  then have "d \<in> set (replicate k (CHR ''0'') @ dec n)" by simp
  then have "is_digit d" using z dec_digits[of n] by auto
  moreover from s d have "s = p @ d # (ds @ rest)" by simp
  ultimately have "spec_id_shaped p s" unfolding spec_id_shaped_def is_digit_iff by blast
  with ns show False ..
qed

lemma set_map_filter: "set (List.map_filter f xs) = {y. \<exists>x \<in> set xs. f x = Some y}"
  by (induction xs) (auto simp: List.map_filter_def)

lemma set_id_nums: "set (id_nums p ids) = {n. \<exists>s \<in> set ids. spec_id_number p s n}"
  by (simp add: id_nums_def set_map_filter re_match_num_spec)

lemma id_nums_append: "id_nums p (xs @ ys) = id_nums p xs @ id_nums p ys"
  by (simp add: id_nums_def List.map_filter_def)

lemma next_id_ignores_unshaped:
  assumes "\<not> spec_id_shaped p s"
  shows "next_id (xs @ s # ys) p = next_id (xs @ ys) p"
proof -
  have "id_nums p [s] = []"
    using re_match_num_unshaped[OF assms] by (simp add: id_nums_def List.map_filter_def)
  then have "id_nums p (xs @ s # ys) = id_nums p (xs @ ys)"
    using id_nums_append[of p xs "[s] @ ys"] id_nums_append[of p "[s]" ys] id_nums_append[of p xs ys]
    by simp
  then show ?thesis by (simp add: next_id_def)
qed

lemma next_id_spec:
  "next_id ids p = p @ zpad 4 (if {n. \<exists>s \<in> set ids. spec_id_number p s n} = {} then 1
                               else Max {n. \<exists>s \<in> set ids. spec_id_number p s n} + 1)"
proof -
  have "(id_nums p ids = []) = ({n. \<exists>s \<in> set ids. spec_id_number p s n} = {})"
    unfolding set_id_nums[symmetric] by simp
  then show ?thesis unfolding next_id_max set_id_nums by simp
qed

lemma spec_id_number_unique: "spec_id_number p s n \<Longrightarrow> spec_id_number p s m \<Longrightarrow> n = m"
  unfolding re_match_num_spec[symmetric] by simp

text \<open>
  Claim C4. Proposal identifiers: with no existing identifier the first one assigned is
  GSU-P-0001; with GSU-P-0001 and GSU-P-0003 present it is GSU-P-0004; in general it is the
  largest number carried by an existing identifier, plus one (1 if no identifier carries a
  number), padded to four digits; and in a run that completes, the k-th imported proposal
  (counting from 0) receives that number plus k. Which identifiers carry which number is
  stated by \<open>spec_id_number\<close>: a well-formed identifier carries the number it renders, an
  identifier carries at most one number, a string that is not the prefix followed by a digit
  is ignored wherever it stands in the list (a list of such strings alone gives GSU-P-0001),
  and text after the digits is not read (GSU-P-2024-001 counts as 2024).
\<close>

theorem proposal_ids_max_plus_one_then_increment:
  "next_id [] ''GSU-P-'' = ''GSU-P-0001''
   \<and> next_id [''GSU-P-0001'', ''GSU-P-0003''] ''GSU-P-'' = ''GSU-P-0004''
   \<and> next_id ids ''GSU-P-'' =
       ''GSU-P-'' @ zpad 4 (if id_nums ''GSU-P-'' ids = [] then 1
                            else Max (set (id_nums ''GSU-P-'' ids)) + 1)
   \<and> (sync_loop cfg today chosen (sync_init ids titles task_ids) = Inr st \<longrightarrow>
        map (\<lambda>r. r ! 0) (wsP st) =
          map (\<lambda>k. PStr (''GSU-P-'' @ zpad 4
                 ((if id_nums ''GSU-P-'' ids = [] then 1
                   else Max (set (id_nums ''GSU-P-'' ids)) + 1) + k))) [0..<added st])
   \<and> next_id [''None'', ''Draft #12'', ''TSK-0042'', ''gsu-p-0007''] ''GSU-P-'' = ''GSU-P-0001''
   \<and> next_id [''GSU-P-2024-001'', ''GSU-P-0003''] ''GSU-P-'' = ''GSU-P-2025''
   \<and> next_id ids ''GSU-P-'' =
       ''GSU-P-'' @ zpad 4 (if {n. \<exists>s \<in> set ids. spec_id_number ''GSU-P-'' s n} = {} then 1
                            else Max {n. \<exists>s \<in> set ids. spec_id_number ''GSU-P-'' s n} + 1)
   \<and> (if id_nums ''GSU-P-'' ids = [] then 1 else Max (set (id_nums ''GSU-P-'' ids)) + 1)
       = (if {n. \<exists>s \<in> set ids. spec_id_number ''GSU-P-'' s n} = {} then 1
          else Max {n. \<exists>s \<in> set ids. spec_id_number ''GSU-P-'' s n} + 1)
   \<and> (\<not> spec_id_shaped ''GSU-P-'' s \<longrightarrow>
        next_id (xs @ s # ys) ''GSU-P-'' = next_id (xs @ ys) ''GSU-P-'')
   \<and> spec_id_number ''GSU-P-'' (''GSU-P-'' @ zpad 4 n) n
   \<and> (spec_id_number ''GSU-P-'' s n \<and> spec_id_number ''GSU-P-'' s m \<longrightarrow> n = m)"
proof -
  have a: "next_id [] ''GSU-P-'' = ''GSU-P-0001''" by code_simp
  have b: "next_id [''GSU-P-0001'', ''GSU-P-0003''] ''GSU-P-'' = ''GSU-P-0004''" by code_simp
  have c: "next_id ids ''GSU-P-'' =
       ''GSU-P-'' @ zpad 4 (if id_nums ''GSU-P-'' ids = [] then 1
                            else Max (set (id_nums ''GSU-P-'' ids)) + 1)"
    by (rule next_id_max)
  have d: "map (\<lambda>r. r ! 0) (wsP st) =
          map (\<lambda>k. PStr (''GSU-P-'' @ zpad 4
                 ((if id_nums ''GSU-P-'' ids = [] then 1
                   else Max (set (id_nums ''GSU-P-'' ids)) + 1) + k))) [0..<added st]"
    if run: "sync_loop cfg today chosen (sync_init ids titles task_ids) = Inr st"
  proof -
    let ?n0 = "if id_nums ''GSU-P-'' ids = [] then 1 else Max (set (id_nums ''GSU-P-'' ids)) + 1"
    have i1: "next_pid (sync_init ids titles task_ids)
                = ''GSU-P-'' @ zpad 4 (?n0 + added (sync_init ids titles task_ids))"
      using c by (simp add: sync_init_def)
    have i2: "map (\<lambda>r. r ! 0) (wsP (sync_init ids titles task_ids))
                = map (\<lambda>k. PStr (''GSU-P-'' @ zpad 4 (?n0 + k)))
                      [0..<added (sync_init ids titles task_ids)]"
      by (simp add: sync_init_def)
    from sync_loop_ids[OF run i1 i2] show ?thesis by simp
  qed
  have e: "next_id [''None'', ''Draft #12'', ''TSK-0042'', ''gsu-p-0007''] ''GSU-P-'' = ''GSU-P-0001''"
    by code_simp
  have f: "next_id [''GSU-P-2024-001'', ''GSU-P-0003''] ''GSU-P-'' = ''GSU-P-2025''" by code_simp
  have g: "next_id ids ''GSU-P-'' =
       ''GSU-P-'' @ zpad 4 (if {n. \<exists>s \<in> set ids. spec_id_number ''GSU-P-'' s n} = {} then 1
                            else Max {n. \<exists>s \<in> set ids. spec_id_number ''GSU-P-'' s n} + 1)"
    by (rule next_id_spec)
  have h: "(if id_nums ''GSU-P-'' ids = [] then 1 else Max (set (id_nums ''GSU-P-'' ids)) + 1)
       = (if {n. \<exists>s \<in> set ids. spec_id_number ''GSU-P-'' s n} = {} then 1
          else Max {n. \<exists>s \<in> set ids. spec_id_number ''GSU-P-'' s n} + 1)"
  proof -
    have "(id_nums ''GSU-P-'' ids = []) = ({n. \<exists>s \<in> set ids. spec_id_number ''GSU-P-'' s n} = {})"
      unfolding set_id_nums[symmetric] by simp
    then show ?thesis unfolding set_id_nums by simp
  qed
  have i: "\<not> spec_id_shaped ''GSU-P-'' s \<longrightarrow>
        next_id (xs @ s # ys) ''GSU-P-'' = next_id (xs @ ys) ''GSU-P-''"
    using next_id_ignores_unshaped by blast
  have j: "spec_id_number ''GSU-P-'' (''GSU-P-'' @ zpad 4 n) n"
    unfolding re_match_num_spec[symmetric] by (rule re_match_num_zpad)
  have k: "spec_id_number ''GSU-P-'' s n \<and> spec_id_number ''GSU-P-'' s m \<longrightarrow> n = m"
    using spec_id_number_unique by blast
  show ?thesis by (intro conjI) (rule a b c e f g h i j k | (rule impI, erule d))+
qed

section \<open>Task generation\<close>

lemma replicate_num: "replicate (numeral k) x = x # replicate (pred_numeral k) x"
  by (simp add: numeral_eq_Suc)

lemmas str_eval = is_digit_def digit_val_def digit_char_def py_int_def dec.simps zpad_def
  UPPERCASE_def LOWERCASE_def py_lower_char_def py_lower_def is_space_def py_strip_def is_word_char_def
  replicate_num
lemmas val_eval = truthy_def py_or_def py_str_def get_def get_default_def str_method_def ebind_def
lemmas date_eval = is_leap_def days_before_year_def DAYS_IN_MONTH_def DAYS_BEFORE_MONTH_def
  days_in_month_def days_before_month_def valid_date_def ymd2ord_def MAXORDINAL_def ord2ymd_def
  isoformat_def date_add_days_def fromisoformat_def Let_def
lemmas rx_eval = rx_lit_def rx_alts_def rx_Y_def month_alts_def day_alts_def rx_m_def rx_d_def
  strptime_finish_def strptime_Ymd_def strptime_mdY_def parse_date_def
lemmas id_eval = re_match_num_def id_nums_def List.map_filter_def next_id_def next_task_id_def
  next_task_def
lemmas sync_eval = FEDERAL_KEYWORDS_def sponsor_type_from_agency_def mechanism_from_source_def
  TASK_TABLE_def task_due_def build_tasks_def opt_iso_def prepare_rows_def sync_init_def
  append_task_def append_rows_def sync_item_def cfg0_def

lemma ebind_eval: "m = Inr x \<Longrightarrow> ebind m f = f x"
  by (simp add: ebind_def)

lemma sequence_err_map:
  "sequence_err (map f xs) = Inr ys \<Longrightarrow> list_all2 (\<lambda>x y. f x = Inr y) xs ys"
proof (induction xs arbitrary: ys)
  case Nil
  then show ?case by simp
next
  case (Cons x xs)
  from Cons.prems
  have e: "ebind (f x) (\<lambda>y. ebind (sequence_err (map f xs)) (\<lambda>zs. Inr (y # zs))) = Inr ys"
    by simp
  from ebind_Inr[OF e] obtain y where y: "f x = Inr y"
    and r: "ebind (sequence_err (map f xs)) (\<lambda>zs. Inr (y # zs)) = Inr ys"
    by blast
  from ebind_Inr[OF r] obtain zs where zs: "sequence_err (map f xs) = Inr zs" and ys: "ys = y # zs"
    by auto
  from Cons.IH[OF zs] y ys show ?case by simp
qed

lemma sequence_err_map_ok:
  "\<forall>x \<in> set xs. f x = Inr (g x) \<Longrightarrow> sequence_err (map f xs) = Inr (map g xs)"
  by (induction xs) (simp_all add: ebind_def)

lemma list_all2_map_eq:
  "list_all2 (\<lambda>x y. f x = Inr y) xs ys \<Longrightarrow> (\<And>x y. f x = Inr y \<Longrightarrow> y = g x) \<Longrightarrow> ys = map g xs"
  by (induction xs ys rule: list_all2_induct) auto

lemma task_due_Inr: "task_due d n = Inr s \<Longrightarrow> s = isoformat (ord2ymd (ymd2ord d - n))"
  by (auto simp: task_due_def date_add_days_def Let_def dest!: ebind_Inr split: if_splits)

lemma task_due_ok:
  "0 < ymd2ord d - n \<Longrightarrow> ymd2ord d - n \<le> MAXORDINAL \<Longrightarrow>
   task_due d n = Inr (isoformat (ord2ymd (ymd2ord d - n)))"
  by (simp add: task_due_def date_add_days_def Let_def ebind_def)

lemma build_tasks_Inr:
  assumes "build_tasks d mech = Inr tasks"
  shows "tasks = map (task_of d) (TASK_TABLE mech)"
proof -
  let ?f = "\<lambda>(name, n, owner, status, notes).
              ebind (task_due d n) (\<lambda>due. Inr (name, due, owner, status, notes))"
  from assms have "list_all2 (\<lambda>x y. ?f x = Inr y) (TASK_TABLE mech) tasks"
    unfolding build_tasks_def by (rule sequence_err_map)
  moreover have "\<And>x y. ?f x = Inr y \<Longrightarrow> y = task_of d x"
    by (auto simp: task_of_def dest!: ebind_Inr task_due_Inr)
  ultimately show ?thesis by (rule list_all2_map_eq)
qed

lemma build_tasks_ok:
  assumes "10 < ymd2ord d" "ymd2ord d \<le> MAXORDINAL"
  shows "build_tasks d mech = Inr (map (task_of d) (TASK_TABLE mech))"
proof -
  have "\<forall>x \<in> set (TASK_TABLE mech).
          (case x of (name, n, owner, status, notes) \<Rightarrow>
              ebind (task_due d n) (\<lambda>due. Inr (name, due, owner, status, notes))) = Inr (task_of d x)"
    using assms by (simp add: TASK_TABLE_def task_of_def task_due_ok ebind_def)
  then show ?thesis unfolding build_tasks_def by (rule sequence_err_map_ok)
qed

lemma task_table_offsets:
  "map (fst \<circ> snd) (map (task_of d) (TASK_TABLE mech))
     = map (\<lambda>n. isoformat (ord2ymd (ymd2ord d - n))) [10, 9, 8, 8, 7, 7, 7]"
  by (simp add: TASK_TABLE_def task_of_def)

lemma task_table_names:
  "map fst (map (task_of d) (TASK_TABLE mech))
     = [''Complete GSU Internal Routing Form'', ''COI Disclosures for all key personnel'',
        ''Subrecipient Commitment Form(s)'', ''Export Control & Data Security review'',
        ''Final Budget & Justification'', ''Create application in '' @ mech,
        ''Dean/Provost cost-share letter (if required)'']"
  by (simp add: TASK_TABLE_def task_of_def)

lemma date_add_days_Inr: "date_add_days d n = Inr x \<Longrightarrow> x = ord2ymd (ymd2ord d + n)"
  by (auto simp: date_add_days_def Let_def split: if_splits)

lemma prepare_rows_Inr:
  assumes "prepare_rows today it cfg pid = Inr (row, tasks)"
  shows "\<exists>close_date posted mech.
           parse_date (get_default it ''close_date'' (PStr [])) = Inr close_date
         \<and> parse_date (get_default it ''posted_date'' (PStr [])) = Inr posted
         \<and> (let due = (case close_date of Some d \<Rightarrow> Some d | None \<Rightarrow> posted);
                anchor = (case due of Some d \<Rightarrow> d | None \<Rightarrow> ord2ymd (ymd2ord today + 30))
            in row ! 11 = PStr (opt_iso due) \<and> row ! 12 = PStr mech
               \<and> tasks = map (task_of anchor) (TASK_TABLE mech))"
proof -
  from assms obtain close_date posted mech anchor where
    c: "parse_date (get_default it ''close_date'' (PStr [])) = Inr close_date"
    and p: "parse_date (get_default it ''posted_date'' (PStr [])) = Inr posted"
    and a: "(case (case close_date of Some d \<Rightarrow> Some d | None \<Rightarrow> posted) of
               Some d \<Rightarrow> Inr d | None \<Rightarrow> date_add_days today 30) = Inr anchor"
    and b: "build_tasks anchor mech = Inr tasks"
    and r: "row ! 11 = PStr (opt_iso (case close_date of Some d \<Rightarrow> Some d | None \<Rightarrow> posted))"
    and r2: "row ! 12 = PStr mech"
    unfolding prepare_rows_def Let_def
    by (auto dest!: ebind_Inr)
  from a have "anchor = (case (case close_date of Some d \<Rightarrow> Some d | None \<Rightarrow> posted) of
                           Some d \<Rightarrow> d | None \<Rightarrow> ord2ymd (ymd2ord today + 30))"
    by (auto split: option.splits dest: date_add_days_Inr)
  with build_tasks_Inr[OF b] c p r r2 show ?thesis by (auto simp: Let_def)
qed

lemma prepare_rows_ok:
  assumes t: "get_default it ''title'' (PStr []) = PStr t0"
    and s: "py_or (get it ''agency'') (py_or (get it ''source'') (PStr [])) = PStr s0"
    and c: "parse_date (get_default it ''close_date'' (PStr [])) = Inr close_date"
    and p: "parse_date (get_default it ''posted_date'' (PStr [])) = Inr posted"
    and due: "due = (case close_date of Some d \<Rightarrow> Some d | None \<Rightarrow> posted)"
    and off: "offset = (case internal_deadline_offset_days cfg of Some n \<Rightarrow> n | None \<Rightarrow> 7)"
    and int: "\<forall>d. due = Some d \<longrightarrow> 0 < ymd2ord d - offset \<and> ymd2ord d - offset \<le> MAXORDINAL"
    and m: "mechanism_from_source it cfg = Inr mech"
    and anchor: "anchor = (case due of Some d \<Rightarrow> d | None \<Rightarrow> ord2ymd (ymd2ord today + 30))"
    and tod: "0 < ymd2ord today + 30" "ymd2ord today + 30 \<le> MAXORDINAL"
    and rng: "10 < ymd2ord anchor" "ymd2ord anchor \<le> MAXORDINAL"
  shows "\<exists>row. prepare_rows today it cfg pid = Inr (row, map (task_of anchor) (TASK_TABLE mech))"
proof -
  have i: "\<exists>internal. (case due of None \<Rightarrow> Inr None
            | Some d \<Rightarrow> ebind (date_add_days d (- offset)) (\<lambda>x. Inr (Some x))) = Inr internal"
    using int by (cases due) (simp_all add: date_add_days_def Let_def ebind_def)
  have a: "(case due of Some d \<Rightarrow> Inr d | None \<Rightarrow> date_add_days today 30) = Inr anchor"
    using anchor tod by (cases due) (simp_all add: date_add_days_def Let_def)
  from i obtain internal where i': "(case due of None \<Rightarrow> Inr None
            | Some d \<Rightarrow> ebind (date_add_days d (- offset)) (\<lambda>x. Inr (Some x))) = Inr internal" ..
  show ?thesis
    unfolding prepare_rows_def Let_def
    by (simp add: t s c p m i'[unfolded due off] a[unfolded due] build_tasks_ok[OF rng]
                  ebind_eval str_method_def)
qed

lemma june_30_offsets:
  "map (\<lambda>n. isoformat (ord2ymd (ymd2ord (2025, 6, 30) - n))) [10, 9, 8, 8, 7, 7, 7]
     = [''2025-06-20'', ''2025-06-21'', ''2025-06-22'', ''2025-06-22'',
        ''2025-06-23'', ''2025-06-23'', ''2025-06-23'']"
  by (simp add: date_eval str_eval)

text \<open>
  Claim C5. Whenever \<open>prepare_rows\<close> returns, it returns exactly seven tasks, in the fixed
  order of the table, whose due dates lie 10, 9, 8, 8, 7, 7, 7 days before the anchor; the
  anchor is the due date of the proposal (the close date, else the posted date) when there
  is one, and today plus 30 days otherwise. For the due date 2025-06-30 the task dates are
  2025-06-20, 2025-06-21, 2025-06-22, 2025-06-22, 2025-06-23, 2025-06-23, 2025-06-23.
\<close>

theorem seven_tasks_at_fixed_offsets:
  "prepare_rows today it cfg pid = Inr (row, tasks) \<Longrightarrow>
   (\<exists>close_date posted mech.
       parse_date (get_default it ''close_date'' (PStr [])) = Inr close_date
     \<and> parse_date (get_default it ''posted_date'' (PStr [])) = Inr posted
     \<and> (let due = (case close_date of Some d \<Rightarrow> Some d | None \<Rightarrow> posted);
            anchor = (case due of Some d \<Rightarrow> d | None \<Rightarrow> ord2ymd (ymd2ord today + 30))
        in row ! 11 = PStr (opt_iso due)
         \<and> row ! 12 = PStr mech
         \<and> length tasks = 7
         \<and> map (fst \<circ> snd) tasks
             = map (\<lambda>n. isoformat (ord2ymd (ymd2ord anchor - n))) [10, 9, 8, 8, 7, 7, 7]
         \<and> map fst tasks
             = [''Complete GSU Internal Routing Form'', ''COI Disclosures for all key personnel'',
                ''Subrecipient Commitment Form(s)'', ''Export Control & Data Security review'',
                ''Final Budget & Justification'', ''Create application in '' @ mech,
                ''Dean/Provost cost-share letter (if required)'']
         \<and> (due = Some (2025, 6, 30) \<longrightarrow>
              map (fst \<circ> snd) tasks
                = [''2025-06-20'', ''2025-06-21'', ''2025-06-22'', ''2025-06-22'',
                   ''2025-06-23'', ''2025-06-23'', ''2025-06-23''])))"
proof -
  assume "prepare_rows today it cfg pid = Inr (row, tasks)"
  from prepare_rows_Inr[OF this] obtain close_date posted mech where
    c: "parse_date (get_default it ''close_date'' (PStr [])) = Inr close_date"
    and p: "parse_date (get_default it ''posted_date'' (PStr [])) = Inr posted"
    and r: "row ! 11 = PStr (opt_iso (case close_date of Some d \<Rightarrow> Some d | None \<Rightarrow> posted))"
    and r2: "row ! 12 = PStr mech"
    and t: "tasks = map (task_of (case (case close_date of Some d \<Rightarrow> Some d | None \<Rightarrow> posted) of
                                     Some d \<Rightarrow> d | None \<Rightarrow> ord2ymd (ymd2ord today + 30)))
                        (TASK_TABLE mech)"
    by (auto simp: Let_def)
  have len: "length tasks = 7" unfolding t by (simp add: TASK_TABLE_def)
  have june: "(case close_date of Some d \<Rightarrow> Some d | None \<Rightarrow> posted) = Some (2025, 6, 30) \<longrightarrow>
              map (fst \<circ> snd) tasks
                = [''2025-06-20'', ''2025-06-21'', ''2025-06-22'', ''2025-06-22'',
                   ''2025-06-23'', ''2025-06-23'', ''2025-06-23'']"
  proof
    assume d: "(case close_date of Some d \<Rightarrow> Some d | None \<Rightarrow> posted) = Some (2025, 6, 30)"
    show "map (fst \<circ> snd) tasks
                = [''2025-06-20'', ''2025-06-21'', ''2025-06-22'', ''2025-06-22'',
                   ''2025-06-23'', ''2025-06-23'', ''2025-06-23'']"
      unfolding t d option.case task_table_offsets by (rule june_30_offsets)
  qed
  have offs: "map (fst \<circ> snd) tasks
             = map (\<lambda>n. isoformat (ord2ymd (ymd2ord
                     (case (case close_date of Some d \<Rightarrow> Some d | None \<Rightarrow> posted) of
                        Some d \<Rightarrow> d | None \<Rightarrow> ord2ymd (ymd2ord today + 30)) - n)))
                   [10, 9, 8, 8, 7, 7, 7]"
    unfolding t by (rule task_table_offsets)
  have names: "map fst tasks
             = [''Complete GSU Internal Routing Form'', ''COI Disclosures for all key personnel'',
                ''Subrecipient Commitment Form(s)'', ''Export Control & Data Security review'',
                ''Final Budget & Justification'', ''Create application in '' @ mech,
                ''Dean/Provost cost-share letter (if required)'']"
    unfolding t by (rule task_table_names)
  show ?thesis
    unfolding Let_def
    by (intro exI conjI) (rule c p r r2 len offs names june)+
qed

lemma parse_2025_06_30: "parse_date (PStr ''2025-06-30'') = Inr (Some (2025, 6, 30))"
proof -
  have y: "rx_Y ''2025-06-30'' = [(2025, ''-06-30'')]" by (simp add: rx_Y_def str_eval)
  have l1: "rx_lit (CHR ''-'') ''-06-30'' = [((), ''06-30'')]" by (simp add: rx_lit_def)
  have m: "rx_m ''06-30'' = [(6, ''-30'')]"
    by (simp add: rx_m_def rx_alts_def month_alts_def str_eval)
  have l2: "rx_lit (CHR ''-'') ''-30'' = [((), ''30'')]" by (simp add: rx_lit_def)
  have d: "rx_d ''30'' = [(30, []), (3, ''0'')]"
    by (simp add: rx_d_def rx_alts_def day_alts_def str_eval)
  have v: "valid_date (2025, 6, 30)" by (simp add: date_eval)
  have "strptime_Ymd (CHR ''-'') ''2025-06-30'' = Some (2025, 6, 30)"
    by (simp add: strptime_Ymd_def strptime_finish_def y l1 m l2 d v)
  then show ?thesis by (simp add: parse_date_def truthy_def)
qed

theorem seven_tasks_witness:
  "\<exists>row tasks. prepare_rows (2025, 3, 14) ex_item cfg0 ''GSU-P-0001'' = Inr (row, tasks)
     \<and> length tasks = 7
     \<and> map (fst \<circ> snd) tasks
         = [''2025-06-20'', ''2025-06-21'', ''2025-06-22'', ''2025-06-22'',
            ''2025-06-23'', ''2025-06-23'', ''2025-06-23'']"
proof -
  have t: "get_default ex_item ''title'' (PStr []) = PStr ''Test HBCU Grant''"
    by (simp add: ex_item_def val_eval)
  have s: "py_or (get ex_item ''agency'') (py_or (get ex_item ''source'') (PStr [])) = PStr ''NIH Guide''"
    by (simp add: ex_item_def val_eval)
  have c: "parse_date (get_default ex_item ''close_date'' (PStr [])) = Inr (Some (2025, 6, 30))"
    by (simp add: ex_item_def get_default_def parse_2025_06_30)
  have p: "parse_date (get_default ex_item ''posted_date'' (PStr [])) = Inr None"
    by (simp add: ex_item_def get_default_def parse_date_def truthy_def)
  have m: "mechanism_from_source ex_item cfg0 = Inr ''ASSIST''"
    by (simp add: ex_item_def cfg0_def mechanism_from_source_def val_eval str_eval)
  have o: "ymd2ord (2025, 6, 30) = 739432" by (simp add: date_eval)
  have o1: "ymd2ord (2025, 3, 14) = 739324" by (simp add: date_eval)
  have "\<exists>row. prepare_rows (2025, 3, 14) ex_item cfg0 ''GSU-P-0001''
           = Inr (row, map (task_of (2025, 6, 30)) (TASK_TABLE ''ASSIST''))"
    by (rule prepare_rows_ok[OF t s c p refl refl _ m])
       (simp_all add: o o1 MAXORDINAL_def cfg0_def)
  then obtain row tasks where
    run: "prepare_rows (2025, 3, 14) ex_item cfg0 ''GSU-P-0001'' = Inr (row, tasks)" by blast
  from seven_tasks_at_fixed_offsets[OF run] c
  have len: "length tasks = 7"
    and dates: "map (fst \<circ> snd) tasks
         = [''2025-06-20'', ''2025-06-21'', ''2025-06-22'', ''2025-06-22'',
            ''2025-06-23'', ''2025-06-23'', ''2025-06-23'']"
    by (auto simp: Let_def)
  show ?thesis by (intro exI conjI) (rule run len dates)+
qed

section \<open>The import loop on concrete runs; skipped records\<close>

lemma sync_item_skip:
  assumes "py_or (get it ''title'') (PStr []) = PStr s" "py_strip s = []"
  shows "sync_item cfg today it st = Inr st"
  using assms by (simp add: sync_item_def ebind_def str_method_def py_lower_def)

lemma sync_item_import:
  assumes "py_or (get it ''title'') (PStr []) = PStr t0"
    and "py_lower (py_strip t0) = title"
    and "title \<noteq> []" "title \<notin> existing_titles st"
    and "prepare_rows today it cfg (next_pid st) = Inr (row, tasks)"
  shows "sync_item cfg today it st = Inr (append_rows st title row tasks)"
  using assms by (simp add: sync_item_def ebind_def str_method_def Let_def)

lemma append_rows_titles:
  "existing_titles (append_rows st title row tasks) = insert title (existing_titles st)"
  by (simp add: append_rows_def Let_def split: prod.splits)

lemma blank_title_cases:
  assumes "map_of it ''title'' = None \<or> map_of it ''title'' = Some PNone
           \<or> (\<exists>s. map_of it ''title'' = Some (PStr s) \<and> list_all is_space s)"
  shows "\<exists>s. py_or (get it ''title'') (PStr []) = PStr s \<and> py_strip s = []"
proof -
  from assms consider (none) "get it ''title'' = PNone"
    | (str) s where "get it ''title'' = PStr s" "list_all is_space s"
    by (auto simp: get_def)
  then show ?thesis
  proof cases
    case none
    then have "py_or (get it ''title'') (PStr []) = PStr []" by (simp add: py_or_def truthy_def)
    then show ?thesis by (simp add: py_strip_def)
  next
    case str
    then have "py_or (get it ''title'') (PStr []) = PStr s"
      by (cases s) (simp_all add: py_or_def truthy_def)
    with str(2) show ?thesis by (simp add: py_strip_blank)
  qed
qed

lemma ex_item_rows:
  "\<exists>row tasks. prepare_rows (2025, 3, 14) ex_item cfg0 pid = Inr (row, tasks)"
proof -
  have t: "get_default ex_item ''title'' (PStr []) = PStr ''Test HBCU Grant''"
    by (simp add: ex_item_def val_eval)
  have s: "py_or (get ex_item ''agency'') (py_or (get ex_item ''source'') (PStr [])) = PStr ''NIH Guide''"
    by (simp add: ex_item_def val_eval)
  have c: "parse_date (get_default ex_item ''close_date'' (PStr [])) = Inr (Some (2025, 6, 30))"
    by (simp add: ex_item_def get_default_def parse_2025_06_30)
  have p: "parse_date (get_default ex_item ''posted_date'' (PStr [])) = Inr None"
    by (simp add: ex_item_def get_default_def parse_date_def truthy_def)
  have m: "mechanism_from_source ex_item cfg0 = Inr ''ASSIST''"
    by (simp add: ex_item_def cfg0_def mechanism_from_source_def val_eval str_eval)
  have o: "ymd2ord (2025, 6, 30) = 739432" by (simp add: date_eval)
  have o1: "ymd2ord (2025, 3, 14) = 739324" by (simp add: date_eval)
  have "\<exists>row. prepare_rows (2025, 3, 14) ex_item cfg0 pid
           = Inr (row, map (task_of (2025, 6, 30)) (TASK_TABLE ''ASSIST''))"
    by (rule prepare_rows_ok[OF t s c p refl refl _ m])
       (simp_all add: o o1 MAXORDINAL_def cfg0_def)
  then show ?thesis by blast
qed

lemma ex_item2_rows:
  "\<exists>row tasks. prepare_rows (2025, 3, 14) ex_item2 cfg0 pid = Inr (row, tasks)"
proof -
  have t: "get_default ex_item2 ''title'' (PStr []) = PStr ''Second grant''"
    by (simp add: ex_item2_def val_eval)
  have s: "py_or (get ex_item2 ''agency'') (py_or (get ex_item2 ''source'') (PStr []))
             = PStr ''Ford Foundation''"
    by (simp add: ex_item2_def val_eval)
  have c: "parse_date (get_default ex_item2 ''close_date'' (PStr [])) = Inr None"
    by (simp add: ex_item2_def get_default_def parse_date_def truthy_def)
  have p: "parse_date (get_default ex_item2 ''posted_date'' (PStr [])) = Inr None"
    by (simp add: ex_item2_def get_default_def parse_date_def truthy_def)
  have m: "mechanism_from_source ex_item2 cfg0 = Inr ''Other''"
    by (simp add: ex_item2_def cfg0_def mechanism_from_source_def val_eval str_eval)
  have o1: "ymd2ord (2025, 3, 14) = 739324" by (simp add: date_eval)
  have o2: "ord2ymd 739354 = (2025, 4, 13)" by (simp add: date_eval)
  have o3: "ymd2ord (2025, 4, 13) = 739354" by (simp add: date_eval)
  have "\<exists>row. prepare_rows (2025, 3, 14) ex_item2 cfg0 pid
           = Inr (row, map (task_of (2025, 4, 13)) (TASK_TABLE ''Other''))"
    by (rule prepare_rows_ok[OF t s c p refl refl _ m])
       (simp_all add: o1 o2 o3 MAXORDINAL_def cfg0_def)
  then show ?thesis by blast
qed

theorem proposal_ids_witness:
  "(\<exists>st. sync_loop cfg0 (2025, 3, 14) [ex_item, ex_blank, ex_item2]
           (sync_init [''GSU-P-0001'', ''GSU-P-0003''] {} []) = Inr st
        \<and> map (\<lambda>r. r ! 0) (wsP st) = [PStr ''GSU-P-0004'', PStr ''GSU-P-0005''])
   \<and> \<not> spec_id_shaped ''GSU-P-'' ''TSK-0042''
   \<and> next_id [''GSU-P-0001'', ''TSK-0042'', ''GSU-P-0003''] ''GSU-P-'' = ''GSU-P-0004''"
proof -
  let ?st0 = "sync_init [''GSU-P-0001'', ''GSU-P-0003''] {} []"
  obtain row1 tasks1 where
    r1: "prepare_rows (2025, 3, 14) ex_item cfg0 (next_pid ?st0) = Inr (row1, tasks1)"
    using ex_item_rows by blast
  let ?st1 = "append_rows ?st0 ''test hbcu grant'' row1 tasks1"
  have s1: "sync_item cfg0 (2025, 3, 14) ex_item ?st0 = Inr ?st1"
  proof (rule sync_item_import[OF _ _ _ _ r1])
    show "py_or (get ex_item ''title'') (PStr []) = PStr ''Test HBCU Grant''"
      by (simp add: ex_item_def val_eval)
    show "py_lower (py_strip ''Test HBCU Grant'') = ''test hbcu grant''" by (simp add: str_eval)
    show "''test hbcu grant'' \<noteq> []" by simp
    show "''test hbcu grant'' \<notin> existing_titles ?st0" by (simp add: sync_init_def)
  qed
  have s2: "sync_item cfg0 (2025, 3, 14) ex_blank ?st1 = Inr ?st1"
  proof (rule sync_item_skip)
    show "py_or (get ex_blank ''title'') (PStr []) = PStr ''   ''"
      by (simp add: ex_blank_def val_eval)
    show "py_strip ''   '' = []" by (simp add: str_eval)
  qed
  obtain row2 tasks2 where
    r2: "prepare_rows (2025, 3, 14) ex_item2 cfg0 (next_pid ?st1) = Inr (row2, tasks2)"
    using ex_item2_rows by blast
  let ?st2 = "append_rows ?st1 ''second grant'' row2 tasks2"
  have s3: "sync_item cfg0 (2025, 3, 14) ex_item2 ?st1 = Inr ?st2"
  proof (rule sync_item_import[OF _ _ _ _ r2])
    show "py_or (get ex_item2 ''title'') (PStr []) = PStr ''Second grant''"
      by (simp add: ex_item2_def val_eval)
    show "py_lower (py_strip ''Second grant'') = ''second grant''" by (simp add: str_eval)
    show "''second grant'' \<noteq> []" by simp
    show "''second grant'' \<notin> existing_titles ?st1"
      by (simp add: append_rows_titles sync_init_def)
  qed
  have run: "sync_loop cfg0 (2025, 3, 14) [ex_item, ex_blank, ex_item2] ?st0 = Inr ?st2"
    by (simp add: s1 s2 s3 ebind_def)
  have ad: "added ?st2 = 2" by (simp add: append_rows_fields sync_init_def)
  have rhs: "map (\<lambda>k. PStr (''GSU-P-'' @ zpad 4
                 ((if id_nums ''GSU-P-'' [''GSU-P-0001'', ''GSU-P-0003''] = [] then 1
                   else Max (set (id_nums ''GSU-P-'' [''GSU-P-0001'', ''GSU-P-0003''])) + 1) + k)))
               [0..<2]
             = [PStr ''GSU-P-0004'', PStr ''GSU-P-0005'']"
    by (simp add: id_eval str_eval upt_rec)
  from proposal_ids_max_plus_one_then_increment
         [of "[''GSU-P-0001'', ''GSU-P-0003'']" cfg0 "(2025, 3, 14)" "[ex_item, ex_blank, ex_item2]"
             "{}" "[]" ?st2] run
  have "map (\<lambda>r. r ! 0) (wsP ?st2) =
          map (\<lambda>k. PStr (''GSU-P-'' @ zpad 4
                 ((if id_nums ''GSU-P-'' [''GSU-P-0001'', ''GSU-P-0003''] = [] then 1
                   else Max (set (id_nums ''GSU-P-'' [''GSU-P-0001'', ''GSU-P-0003''])) + 1) + k)))
              [0..<added ?st2]" by blast
  then have ids: "map (\<lambda>r. r ! 0) (wsP ?st2) = [PStr ''GSU-P-0004'', PStr ''GSU-P-0005'']"
    unfolding ad rhs .
  have ns: "\<not> spec_id_shaped ''GSU-P-'' ''TSK-0042''" by (simp add: spec_id_shaped_def)
  from proposal_ids_max_plus_one_then_increment
         [where s = "''TSK-0042''" and xs = "[''GSU-P-0001'']" and ys = "[''GSU-P-0003'']"] ns
  have "next_id ([''GSU-P-0001''] @ ''TSK-0042'' # [''GSU-P-0003'']) ''GSU-P-''
          = next_id ([''GSU-P-0001''] @ [''GSU-P-0003'']) ''GSU-P-''"
    and "next_id [''GSU-P-0001'', ''GSU-P-0003''] ''GSU-P-'' = ''GSU-P-0004''" by blast+
  then have ign: "next_id [''GSU-P-0001'', ''TSK-0042'', ''GSU-P-0003''] ''GSU-P-'' = ''GSU-P-0004''"
    by simp
  have ex: "\<exists>st. sync_loop cfg0 (2025, 3, 14) [ex_item, ex_blank, ex_item2]
           (sync_init [''GSU-P-0001'', ''GSU-P-0003''] {} []) = Inr st
        \<and> map (\<lambda>r. r ! 0) (wsP st) = [PStr ''GSU-P-0004'', PStr ''GSU-P-0005'']"
    by (intro exI conjI) (rule run ids)+
  show ?thesis by (intro conjI) (rule ex ns ign)+
qed

text \<open>
  Claim C1. The task-identifier generator continues from the last identifier of the list,
  not from the largest one. With the existing identifiers TSK-0005, TSK-0002 (in this
  order) the first identifier generated is TSK-0003 rather than TSK-0006, and the third one
  is TSK-0005, which is already in use.
\<close>

theorem task_ids_follow_last_not_max:
  "fst (next_task (next_task_id [''TSK-0005'', ''TSK-0002''])) = ''TSK-0003''
   \<and> fst (next_task (snd (next_task (snd (next_task
            (next_task_id [''TSK-0005'', ''TSK-0002''])))))) = ''TSK-0005''
   \<and> ''TSK-0005'' \<in> set [''TSK-0005'', ''TSK-0002'']
   \<and> fst (next_task (next_task_id [''TSK-0005'', ''TSK-0002''])) \<noteq> ''TSK-0006''"
  by (simp add: id_eval str_eval Let_def)

text \<open>
  Claim C10. A record whose title is missing, null, empty or made of white space only
  leaves the state of the import loop unchanged: no proposal row, no task row, and neither
  the proposal counter nor the task counter advances; the run continues with the next
  record.
\<close>

theorem blank_title_skipped:
  "map_of it ''title'' = None \<or> map_of it ''title'' = Some PNone
     \<or> (\<exists>s. map_of it ''title'' = Some (PStr s) \<and> list_all is_space s) \<Longrightarrow>
   sync_item cfg today it st = Inr st
   \<and> sync_loop cfg today (it # chosen) st = sync_loop cfg today chosen st"
proof -
  assume "map_of it ''title'' = None \<or> map_of it ''title'' = Some PNone
     \<or> (\<exists>s. map_of it ''title'' = Some (PStr s) \<and> list_all is_space s)"
  from blank_title_cases[OF this] obtain s where
    "py_or (get it ''title'') (PStr []) = PStr s" "py_strip s = []" by blast
  then have "sync_item cfg today it st = Inr st" by (rule sync_item_skip)
  then show ?thesis by (simp add: ebind_def)
qed

theorem blank_title_skipped_witness:
  "sync_item cfg0 (2025, 3, 14) ex_blank (sync_init [] {} []) = Inr (sync_init [] {} [])
   \<and> sync_loop cfg0 (2025, 3, 14) [ex_blank] (sync_init [] {} []) = Inr (sync_init [] {} [])"
proof -
  have "map_of ex_blank ''title'' = None \<or> map_of ex_blank ''title'' = Some PNone
        \<or> (\<exists>s. map_of ex_blank ''title'' = Some (PStr s) \<and> list_all is_space s)"
    by (simp add: ex_blank_def is_space_def)
  from blank_title_skipped[OF this, of cfg0 "(2025, 3, 14)" "sync_init [] {} []" "[]"]
  show ?thesis by (simp add: ebind_def)
qed

end
